theory Spec2Isabelle
  imports Complex_Main
begin

section \<open>Python values used by the invoice layout engine\<close>

text \<open>
  The embedding follows \<^verbatim>\<open>invoice_formats.py\<close>. A Python \<^verbatim>\<open>str\<close> is a sequence of
  Unicode code points and \<^verbatim>\<open>len\<close> counts code points, so a string is a list of code
  points here; \<open>ascii\<close> turns a literal of the source into one. Python's \<^verbatim>\<open>int\<close> is
  \<^typ>\<open>int\<close>.

  Python's \<^verbatim>\<open>float\<close> is IEEE 754 binary64. The page-height threshold of
  \<^verbatim>\<open>needs_pagination\<close>, the batch size \<^verbatim>\<open>calculate_page_breaks\<close> derives and the
  distances of \<^verbatim>\<open>find_closest_size\<close> are computed with the binary64 operations of the
  section on floats below: every result is the exact one rounded to the nearest double.
  The font scaling, the characters per line of a thermal roll and the space budget of
  \<^verbatim>\<open>format_thermal_line\<close> are truncations of small products and quotients and are
  written over \<^typ>\<open>real\<close>. The content height that \<^verbatim>\<open>estimate_content_height\<close>
  adds up is a \<^typ>\<open>real\<close> as well: for a call without logo and QR codes, the only one
  \<^verbatim>\<open>calculate_page_breaks\<close> makes, every summand is an int and the sum is exact.
\<close>

type_synonym ustr = "nat list"

definition ascii :: "string \<Rightarrow> ustr" where
  "ascii s = map of_char s"

datatype py_error = IndexError | ValueError | OverflowError | ZeroDivisionError

text \<open>\<^verbatim>\<open>int(x)\<close> on a float truncates towards zero.\<close>

definition py_int :: "real \<Rightarrow> int" where
  "py_int x = (if 0 \<le> x then \<lfloor>x\<rfloor> else \<lceil>x\<rceil>)"

text \<open>\<^verbatim>\<open>str(n)\<close> on an int: the decimal digits, with a sign when negative.\<close>

fun str_nat :: "nat \<Rightarrow> ustr" where
  "str_nat n = (if n < 10 then [48 + n] else str_nat (n div 10) @ [48 + n mod 10])"

definition str_int :: "int \<Rightarrow> ustr" where
  "str_int i = (if i < 0 then 45 # str_nat (nat (- i)) else str_nat (nat i))"

text \<open>
  The slice \<^verbatim>\<open>xs[:n]\<close>: the first \<open>n\<close> elements, and for a negative \<open>n\<close> all but the
  last \<open>-n\<close>. A slice never raises.
\<close>

definition py_take :: "int \<Rightarrow> 'a list \<Rightarrow> 'a list" where
  "py_take n xs = (if 0 \<le> n then take (nat n) xs else take (nat (int (length xs) + n)) xs)"

text \<open>\<^verbatim>\<open>sep.join(parts)\<close>.\<close>

fun py_join :: "ustr \<Rightarrow> ustr list \<Rightarrow> ustr" where
  "py_join sep [] = []"
| "py_join sep [x] = x"
| "py_join sep (x # y # ys) = x @ sep @ py_join sep (y # ys)"

text \<open>
  \<^verbatim>\<open>str.isspace\<close> on one code point, and \<^verbatim>\<open>s.split()\<close> with no argument: the maximal
  runs of characters that are not whitespace, in order; no run is empty.
\<close>

definition py_isspace :: "nat \<Rightarrow> bool" where
  "py_isspace c =
     ((9 \<le> c \<and> c \<le> 13) \<or> (28 \<le> c \<and> c \<le> 32) \<or> c = 133 \<or> c = 160 \<or> c = 5760 \<or>
      (8192 \<le> c \<and> c \<le> 8202) \<or> c = 8232 \<or> c = 8233 \<or> c = 8239 \<or> c = 8287 \<or>
      c = 12288)"

fun split_from :: "ustr \<Rightarrow> ustr \<Rightarrow> ustr list" where
  "split_from cur [] = (if cur = [] then [] else [cur])"
| "split_from cur (c # cs) =
     (if py_isspace c then (if cur = [] then split_from [] cs else cur # split_from [] cs)
      else split_from (cur @ [c]) cs)"

definition py_split :: "ustr \<Rightarrow> ustr list" where
  "py_split s = split_from [] s"


section \<open>Binary64 floats\<close>

text \<open>
  A finite double is a number \<open>k * 2^e\<close> with \<open>|k| < 2^53\<close> and \<open>-1074 \<le> e \<le> 971\<close>.
  \<open>round_even\<close> rounds a real to the nearest integer, a tie to the even one.
  \<open>ulp_exp x\<close> is the exponent of the last place of the doubles around \<open>x\<close>: 52 below
  the exponent of \<open>x\<close>, and never below \<open>-1074\<close>, where the subnormal numbers lie.
  \<open>round64 x\<close> is \<open>x\<close> rounded to the nearest number of that grid, the rounding of
  IEEE 754 with an unbounded exponent; \<open>max_float\<close> is the largest finite double.
\<close>

definition round_even :: "real \<Rightarrow> int" where
  "round_even y =
     (let f = \<lfloor>y\<rfloor>; d = y - of_int f
      in if d < 1 / 2 then f else if 1 / 2 < d then f + 1 else if even f then f else f + 1)"

definition p2 :: "int \<Rightarrow> real" where
  "p2 e = 2 powr of_int e"

definition ulp_exp :: "real \<Rightarrow> int" where
  "ulp_exp x = max (\<lfloor>log 2 \<bar>x\<bar>\<rfloor> - 52) (- 1074)"

definition round64 :: "real \<Rightarrow> real" where
  "round64 x =
     (if x = 0 then 0
      else of_int (round_even (x / p2 (ulp_exp x))) * p2 (ulp_exp x))"

definition max_float :: real where
  "max_float = (2 ^ 53 - 1) * 2 ^ 971"

text \<open>
  A float is a finite number, an infinity or a NaN; the two zeros are not told apart
  (no operation below depends on the sign of a zero). \<open>pack\<close> is the result of an
  arithmetic operation whose exact value is \<open>x\<close>: the rounded value, or an infinity
  when that is beyond the largest double. A literal of the source such as \<^verbatim>\<open>0.85\<close> is
  the double \<open>round64 0.85\<close>; an int operand of a float operation is converted first,
  exactly for the ints of the tables.
\<close>

datatype f64 = Fin real | PInf | NInf | NaN

definition pack :: "real \<Rightarrow> f64" where
  "pack x =
     (let q = round64 x
      in if max_float < q then PInf else if q < - max_float then NInf else Fin q)"

fun fneg :: "f64 \<Rightarrow> f64" where
  "fneg (Fin a) = Fin (- a)"
| "fneg PInf = NInf"
| "fneg NInf = PInf"
| "fneg NaN = NaN"

text \<open>\<^verbatim>\<open>x + y\<close> and \<^verbatim>\<open>x - y\<close>: an overflow gives an infinity, never an exception.\<close>

fun fadd :: "f64 \<Rightarrow> f64 \<Rightarrow> f64" where
  "fadd (Fin a) (Fin b) = pack (a + b)"
| "fadd NaN y = NaN"
| "fadd x NaN = NaN"
| "fadd PInf NInf = NaN"
| "fadd NInf PInf = NaN"
| "fadd PInf y = PInf"
| "fadd NInf y = NInf"
| "fadd (Fin a) y = y"

definition fsub :: "f64 \<Rightarrow> f64 \<Rightarrow> f64" where
  "fsub x y = fadd x (fneg y)"

text \<open>\<^verbatim>\<open>x * y\<close>: an infinity times zero is a NaN.\<close>

fun fmul :: "f64 \<Rightarrow> f64 \<Rightarrow> f64" where
  "fmul (Fin a) (Fin b) = pack (a * b)"
| "fmul NaN y = NaN"
| "fmul x NaN = NaN"
| "fmul (Fin a) y = (if a = 0 then NaN else if 0 < a then y else fneg y)"
| "fmul x (Fin b) = (if b = 0 then NaN else if 0 < b then x else fneg x)"
| "fmul PInf y = y"
| "fmul NInf y = fneg y"

text \<open>\<^verbatim>\<open>x / y\<close> raises \<^verbatim>\<open>ZeroDivisionError\<close> on a zero divisor, whatever \<open>x\<close> is.\<close>

fun fdiv :: "f64 \<Rightarrow> f64 \<Rightarrow> py_error + f64" where
  "fdiv x (Fin b) =
     (if b = 0 then Inl ZeroDivisionError
      else case x of Fin a \<Rightarrow> Inr (pack (a / b)) | NaN \<Rightarrow> Inr NaN
           | _ \<Rightarrow> Inr (if 0 < b then x else fneg x))"
| "fdiv x NaN = Inr NaN"
| "fdiv (Fin a) y = Inr (Fin 0)"
| "fdiv x y = Inr NaN"


text \<open>
  \<^verbatim>\<open>x < y\<close> and \<^verbatim>\<open>x > y\<close>: false as soon as an operand is a NaN. Python compares
  an int with a float by their exact values, which is the comparison of \<open>Fin\<close> with
  \<open>Fin\<close>.
\<close>

fun flt :: "f64 \<Rightarrow> f64 \<Rightarrow> bool" where
  "flt (Fin a) (Fin b) = (a < b)"
| "flt NaN y = False"
| "flt x NaN = False"
| "flt x NInf = False"
| "flt PInf y = False"
| "flt NInf y = True"
| "flt (Fin a) PInf = True"

definition fgt :: "f64 \<Rightarrow> f64 \<Rightarrow> bool" where
  "fgt x y = flt y x"



fun float_int :: "f64 \<Rightarrow> py_error + int" where
  "float_int (Fin a) = Inr (py_int a)"
| "float_int NaN = Inl ValueError"
| "float_int x = Inl OverflowError"


section \<open>Data model\<close>

datatype BillSize =
    A5 | A4 | A3
  | HALF_LETTER | LETTER | LEGAL
  | THERMAL_57 | THERMAL_58 | THERMAL_76 | THERMAL_80
  | QUARTER_LETTER | LONG_STRIP | CASH_RECEIPT


fun display_name :: "BillSize \<Rightarrow> ustr" where
  "display_name A5 = ascii ''A5''"
| "display_name A4 = ascii ''A4''"
| "display_name A3 = ascii ''A3''"
| "display_name HALF_LETTER = ascii ''Half Letter''"
| "display_name LETTER = ascii ''Letter''"
| "display_name LEGAL = ascii ''Legal''"
| "display_name THERMAL_57 = ascii ''57mm Thermal''"
| "display_name THERMAL_58 = ascii ''58mm Thermal''"
| "display_name THERMAL_76 = ascii ''76mm Thermal''"
| "display_name THERMAL_80 = ascii ''80mm Thermal''"
| "display_name QUARTER_LETTER = 188 # ascii ''-Letter Strip''"
| "display_name LONG_STRIP = ascii ''Long Strip''"
| "display_name CASH_RECEIPT = ascii ''Cash Receipt''"

fun width_mm :: "BillSize \<Rightarrow> int" where
  "width_mm A5 = 148"
| "width_mm A4 = 210"
| "width_mm A3 = 297"
| "width_mm HALF_LETTER = 140"
| "width_mm LETTER = 216"
| "width_mm LEGAL = 216"
| "width_mm THERMAL_57 = 57"
| "width_mm THERMAL_58 = 58"
| "width_mm THERMAL_76 = 76"
| "width_mm THERMAL_80 = 80"
| "width_mm QUARTER_LETTER = 108"
| "width_mm LONG_STRIP = 70"
| "width_mm CASH_RECEIPT = 109"

fun height_mm :: "BillSize \<Rightarrow> int" where
  "height_mm A5 = 210"
| "height_mm A4 = 297"
| "height_mm A3 = 420"
| "height_mm HALF_LETTER = 216"
| "height_mm LETTER = 279"
| "height_mm LEGAL = 356"
| "height_mm THERMAL_57 = 0"
| "height_mm THERMAL_58 = 0"
| "height_mm THERMAL_76 = 0"
| "height_mm THERMAL_80 = 0"
| "height_mm QUARTER_LETTER = 216"
| "height_mm LONG_STRIP = 194"
| "height_mm CASH_RECEIPT = 189"

fun category :: "BillSize \<Rightarrow> ustr" where
  "category A5 = ascii ''paper''"
| "category A4 = ascii ''paper''"
| "category A3 = ascii ''paper''"
| "category HALF_LETTER = ascii ''paper''"
| "category LETTER = ascii ''paper''"
| "category LEGAL = ascii ''paper''"
| "category THERMAL_57 = ascii ''thermal''"
| "category THERMAL_58 = ascii ''thermal''"
| "category THERMAL_76 = ascii ''thermal''"
| "category THERMAL_80 = ascii ''thermal''"
| "category QUARTER_LETTER = ascii ''paper''"
| "category LONG_STRIP = ascii ''paper''"
| "category CASH_RECEIPT = ascii ''paper''"

definition is_thermal :: "BillSize \<Rightarrow> bool" where
  "is_thermal s = (category s = ascii ''thermal'')"

definition is_continuous :: "BillSize \<Rightarrow> bool" where
  "is_continuous s = (height_mm s = 0)"

datatype LayoutStyle = CLASSIC | MINIMAL | COMPACT | DETAILED

text \<open>
  The four sides of \<^verbatim>\<open>Margins\<close> are floats for a caller. The registry's own tables
  hold Python ints, which the messages of \<^verbatim>\<open>validate_margins\<close> print as such, so the
  number type is a parameter of the record. The fields carry the suffix \<open>_m\<close>
  (\<open>top\<close> is a constant of HOL).
\<close>

record 'n Margins =
  top_m :: 'n
  right_m :: 'n
  bottom_m :: 'n
  left_m :: 'n

definition Margins :: "'n \<Rightarrow> 'n \<Rightarrow> 'n \<Rightarrow> 'n \<Rightarrow> 'n Margins" where
  "Margins t r b l = \<lparr>top_m = t, right_m = r, bottom_m = b, left_m = l\<rparr>"

definition horizontal_total :: "real Margins \<Rightarrow> real" where
  "horizontal_total m = left_m m + right_m m"

text \<open>
  \<^verbatim>\<open>vertical_total\<close> feeds the page-height threshold and is the binary64 sum.
  \<^verbatim>\<open>horizontal_total\<close> is used on the integer margins of the tables, where the sum is
  exact.
\<close>

definition vertical_total :: "real Margins \<Rightarrow> f64" where
  "vertical_total m = fadd (Fin (top_m m)) (Fin (bottom_m m))"

text \<open>An int of a table where a float is expected.\<close>

definition as_float :: "int Margins \<Rightarrow> real Margins" where
  "as_float m =
     \<lparr>top_m = of_int (top_m m), right_m = of_int (right_m m),
      bottom_m = of_int (bottom_m m), left_m = of_int (left_m m)\<rparr>"

record FontSettings =
  base_size :: int
  title_size :: int
  header_size :: int
  item_size :: int
  footer_size :: int
  mono_font :: ustr
  sans_font :: ustr

definition scale :: "FontSettings \<Rightarrow> real \<Rightarrow> FontSettings" where
  "scale f factor =
     \<lparr>base_size = py_int (of_int (base_size f) * factor),
      title_size = py_int (of_int (title_size f) * factor),
      header_size = py_int (of_int (header_size f) * factor),
      item_size = py_int (of_int (item_size f) * factor),
      footer_size = py_int (of_int (footer_size f) * factor),
      mono_font = mono_font f,
      sans_font = sans_font f\<rparr>"

record LayoutConfig =
  size_b :: BillSize
  style :: LayoutStyle
  margins :: "real Margins"
  fonts :: FontSettings
  chars_per_line :: int
  max_qr_codes :: int
  qr_size_mm :: real
  logo_max_height_mm :: real
  show_borders :: bool
  column_widths :: "(ustr \<times> real) list"
  wrap_item_names :: bool
  max_lines_per_item :: int
  page_break_threshold :: real

definition printable_width_mm :: "LayoutConfig \<Rightarrow> real" where
  "printable_width_mm c = of_int (width_mm (size_b c)) - horizontal_total (margins c)"

definition printable_height_mm :: "LayoutConfig \<Rightarrow> f64" where
  "printable_height_mm c =
     (if is_continuous (size_b c) then Fin 0
      else fsub (Fin (of_int (height_mm (size_b c)))) (vertical_total (margins c)))"


section \<open>Format registry\<close>

text \<open>
  \<^verbatim>\<open>DEFAULT_MARGINS\<close> is only subscripted with literal keys, so each of its entries is
  a constant. \<^verbatim>\<open>MIN_MARGINS\<close> and \<^verbatim>\<open>FONT_SCALES\<close> are read with \<^verbatim>\<open>dict.get\<close>: they are
  maps, and \<open>py_get\<close> is the lookup with a default.
\<close>

definition py_get :: "('k \<rightharpoonup> 'v) \<Rightarrow> 'k \<Rightarrow> 'v \<Rightarrow> 'v" where
  "py_get d k dflt = (case d k of Some v \<Rightarrow> v | None \<Rightarrow> dflt)"

definition DEFAULT_MARGINS_paper_large :: "int Margins" where
  "DEFAULT_MARGINS_paper_large = Margins 15 15 15 15"

definition DEFAULT_MARGINS_paper_medium :: "int Margins" where
  "DEFAULT_MARGINS_paper_medium = Margins 12 12 12 12"

definition DEFAULT_MARGINS_paper_small :: "int Margins" where
  "DEFAULT_MARGINS_paper_small = Margins 10 10 10 10"

definition DEFAULT_MARGINS_paper_strip :: "int Margins" where
  "DEFAULT_MARGINS_paper_strip = Margins 5 5 5 5"

definition DEFAULT_MARGINS_thermal_standard :: "int Margins" where
  "DEFAULT_MARGINS_thermal_standard = Margins 3 3 3 3"

definition DEFAULT_MARGINS_thermal_minimal :: "int Margins" where
  "DEFAULT_MARGINS_thermal_minimal = Margins 2 2 2 2"

definition MIN_MARGINS_paper :: "int Margins" where
  "MIN_MARGINS_paper = Margins 5 5 5 5"

definition MIN_MARGINS_thermal :: "int Margins" where
  "MIN_MARGINS_thermal = Margins 2 2 2 2"

definition MIN_MARGINS :: "ustr \<rightharpoonup> int Margins" where
  "MIN_MARGINS k =
     (if k = ascii ''paper'' then Some MIN_MARGINS_paper
      else if k = ascii ''thermal'' then Some MIN_MARGINS_thermal
      else None)"

fun FONT_SCALES :: "BillSize \<rightharpoonup> real" where
  "FONT_SCALES A3 = Some 1.2"
| "FONT_SCALES A4 = Some 1.0"
| "FONT_SCALES A5 = Some 0.85"
| "FONT_SCALES LETTER = Some 1.0"
| "FONT_SCALES LEGAL = Some 1.0"
| "FONT_SCALES HALF_LETTER = Some 0.85"
| "FONT_SCALES THERMAL_80 = Some 0.8"
| "FONT_SCALES THERMAL_76 = Some 0.75"
| "FONT_SCALES THERMAL_58 = Some 0.7"
| "FONT_SCALES THERMAL_57 = Some 0.7"
| "FONT_SCALES QUARTER_LETTER = Some 0.8"
| "FONT_SCALES LONG_STRIP = Some 0.75"
| "FONT_SCALES CASH_RECEIPT = Some 0.8"

text \<open>
  \<^verbatim>\<open>get_default_config\<close>: \<open>default_margins\<close> is its block "Determine margins" and
  \<open>default_column_widths\<close> its block "Column widths".
\<close>

definition default_margins :: "BillSize \<Rightarrow> LayoutStyle \<Rightarrow> int Margins" where
  "default_margins sz st =
     (if is_thermal sz then
        (if st = COMPACT then DEFAULT_MARGINS_thermal_minimal
         else DEFAULT_MARGINS_thermal_standard)
      else if sz \<in> set [A3, LETTER, LEGAL] then DEFAULT_MARGINS_paper_large
      else if sz \<in> set [A4] then DEFAULT_MARGINS_paper_medium
      else if sz \<in> set [A5, HALF_LETTER] then DEFAULT_MARGINS_paper_small
      else DEFAULT_MARGINS_paper_strip)"

definition default_column_widths :: "BillSize \<Rightarrow> LayoutStyle \<Rightarrow> (ustr \<times> real) list" where
  "default_column_widths sz st =
     (if st = COMPACT \<or> is_thermal sz then
        [(ascii ''item'', 0.45), (ascii ''qty'', 0.15), (ascii ''price'', 0.20),
         (ascii ''total'', 0.20)]
      else if st = DETAILED then
        [(ascii ''item'', 0.35), (ascii ''description'', 0.25), (ascii ''qty'', 0.10),
         (ascii ''price'', 0.15), (ascii ''total'', 0.15)]
      else
        [(ascii ''item'', 0.40), (ascii ''qty'', 0.15), (ascii ''price'', 0.20),
         (ascii ''total'', 0.25)])"

definition get_default_config :: "BillSize \<Rightarrow> LayoutStyle \<Rightarrow> LayoutConfig" where
  "get_default_config sz st =
     (let margins0 = as_float (default_margins sz st);
          base_fonts = \<lparr>base_size = 10, title_size = 16, header_size = 12, item_size = 9,
                        footer_size = 8, mono_font = ascii ''Courier'',
                        sans_font = ascii ''Helvetica''\<rparr>;
          scale_factor = py_get FONT_SCALES sz 1.0;
          fonts0 = scale base_fonts scale_factor;
          chars = (if is_thermal sz
                   then py_int ((of_int (width_mm sz) - horizontal_total margins0) / 2.5)
                   else 0);
          max_qr = (if is_thermal sz then 1
                    else if sz \<in> set [A3, LETTER, LEGAL] then 3 else 2);
          qr_size = (if is_thermal sz then 15 else if sz \<in> set [A3] then 25 else 20);
          logo_max_height = (if is_thermal sz then 15 else if sz \<in> set [A3] then 30 else 25)
      in \<lparr>size_b = sz, style = st, margins = margins0, fonts = fonts0,
          chars_per_line = chars, max_qr_codes = max_qr, qr_size_mm = qr_size,
          logo_max_height_mm = logo_max_height, show_borders = (st \<noteq> MINIMAL),
          column_widths = default_column_widths sz st,
          wrap_item_names = (\<not> is_thermal sz),
          max_lines_per_item = (if is_thermal sz then 1 else 3),
          page_break_threshold = round64 0.85\<rparr>)"

text \<open>
  \<^verbatim>\<open>validate_margins\<close>: \<open>margin_errors\<close> is the list \<^verbatim>\<open>errors\<close> after the four tests,
  in the order top, right, bottom, left.
\<close>

definition too_small :: "ustr \<Rightarrow> int \<Rightarrow> ustr" where
  "too_small side m = side @ ascii '' margin too small (min: '' @ str_int m @ ascii ''mm)''"

definition margin_errors :: "real Margins \<Rightarrow> int Margins \<Rightarrow> ustr list" where
  "margin_errors m min_margins =
     (if top_m m < of_int (top_m min_margins)
      then [too_small (ascii ''Top'') (top_m min_margins)] else []) @
     (if right_m m < of_int (right_m min_margins)
      then [too_small (ascii ''Right'') (right_m min_margins)] else []) @
     (if bottom_m m < of_int (bottom_m min_margins)
      then [too_small (ascii ''Bottom'') (bottom_m min_margins)] else []) @
     (if left_m m < of_int (left_m min_margins)
      then [too_small (ascii ''Left'') (left_m min_margins)] else [])"

definition validate_margins :: "real Margins \<Rightarrow> ustr \<Rightarrow> bool \<times> ustr" where
  "validate_margins m cat =
     (let min_margins = py_get MIN_MARGINS cat MIN_MARGINS_paper;
          errors = margin_errors m min_margins
      in if errors \<noteq> [] then (False, py_join (ascii ''; '') errors) else (True, []))"








section \<open>Layout engine\<close>

text \<open>
  An \<^verbatim>\<open>AutoLayoutEngine\<close> holds its \<^verbatim>\<open>config\<close> and nothing else, so each method takes
  the configuration as its first argument. The dictionary \<^verbatim>\<open>calculate_item_layout\<close>
  returns is a record of its three keys (\<open>display_name_i\<close> is the key
  \<^verbatim>\<open>display_name\<close>).
\<close>

record ItemLayout =
  display_name_i :: ustr
  lines :: "ustr list"
  truncated :: bool

text \<open>
  The word loop of \<^verbatim>\<open>calculate_item_layout\<close>, on the pair of \<^verbatim>\<open>lines\<close> and
  \<^verbatim>\<open>current_line\<close>.
\<close>

fun wrap_loop :: "ustr list \<Rightarrow> ustr list \<times> ustr list \<Rightarrow> ustr list \<times> ustr list" where
  "wrap_loop [] st = st"
| "wrap_loop (word # words) (lines0, current_line) =
     (if length (py_join (ascii '' '') (current_line @ [word])) \<le> 40
      then wrap_loop words (lines0, current_line @ [word])
      else wrap_loop words
             (if current_line \<noteq> [] then lines0 @ [py_join (ascii '' '') current_line]
              else lines0,
              [word]))"

text \<open>
  The list \<^verbatim>\<open>lines\<close> of the paper path after the word loop and the flush of the last
  \<^verbatim>\<open>current_line\<close>.
\<close>

definition wrapped_lines :: "ustr \<Rightarrow> ustr list" where
  "wrapped_lines item_name =
     (let words = py_split item_name;
          (lines0, current_line) = wrap_loop words ([], [])
      in if current_line \<noteq> [] then lines0 @ [py_join (ascii '' '') current_line]
         else lines0)"

text \<open>
  \<^verbatim>\<open>lines[-1]\<close> raises \<^verbatim>\<open>IndexError\<close> on an empty list; every other step of
  \<^verbatim>\<open>calculate_item_layout\<close> is a comparison, a slice or a concatenation.
\<close>

definition calculate_item_layout :: "LayoutConfig \<Rightarrow> ustr \<Rightarrow> py_error + ItemLayout" where
  "calculate_item_layout c item_name =
     (if is_thermal (size_b c) then
        (if of_nat (length item_name) > of_int (chars_per_line c) * (0.45::real) then
           (let max_chars = py_int (of_int (chars_per_line c) * 0.45 - 3);
                shown = py_take max_chars item_name @ ascii ''...''
            in Inr \<lparr>display_name_i = shown, lines = [shown], truncated = True\<rparr>)
         else Inr \<lparr>display_name_i = item_name, lines = [item_name], truncated = False\<rparr>)
      else if wrap_item_names c then
        (let lines1 = wrapped_lines item_name
         in if int (length lines1) > max_lines_per_item c then
              (let lines2 = py_take (max_lines_per_item c) lines1 in
               if lines2 = [] then Inl IndexError
               else Inr \<lparr>display_name_i = item_name,
                         lines = lines2[length lines2 - 1 :=
                                   py_take (- 3) (last lines2) @ ascii ''...''],
                         truncated = True\<rparr>)
            else Inr \<lparr>display_name_i = item_name, lines = lines1, truncated = False\<rparr>)
      else Inr \<lparr>display_name_i = item_name, lines = [item_name], truncated = False\<rparr>)"

definition estimate_content_height :: "LayoutConfig \<Rightarrow> int \<Rightarrow> bool \<Rightarrow> bool \<Rightarrow> real" where
  "estimate_content_height c num_items has_qr has_logo =
     (let h0 = (if has_logo then logo_max_height_mm c + 5 else 0);
          h1 = h0 + 30;
          h2 = h1 + 20;
          item_row_height = (if is_thermal (size_b c) then 5 else 7);
          h3 = h2 + of_int ((num_items + 1) * item_row_height);
          h4 = h3 + 20;
          h5 = (if has_qr then h4 + (qr_size_mm c + 10) else h4)
      in h5 + 15)"

text \<open>
  \<^verbatim>\<open>needs_pagination\<close>: the threshold is the binary64 product; the content height is
  compared with it by its exact value.
\<close>

definition needs_pagination :: "LayoutConfig \<Rightarrow> real \<Rightarrow> bool" where
  "needs_pagination c content_height_mm =
     (if is_continuous (size_b c) then False
      else (let available_height = printable_height_mm c;
                threshold_height = fmul available_height (Fin (page_break_threshold c))
            in fgt (Fin content_height_mm) threshold_height))"

text \<open>
  The loop of \<^verbatim>\<open>calculate_page_breaks\<close> for a positive step: \<open>i\<close> runs over
  \<^verbatim>\<open>range(0, len(items), step)\<close> and each batch is \<^verbatim>\<open>items[i:i + step]\<close>.
\<close>

function page_loop :: "nat \<Rightarrow> nat \<Rightarrow> 'a list \<Rightarrow> 'a list list" where
  "page_loop i step items =
     (if step = 0 \<or> length items \<le> i then []
      else take step (drop i items) # page_loop (i + step) step items)"
  by pat_completeness auto
termination
  by (relation "measure (\<lambda>(i, step, items). length items - i)") auto

text \<open>
  The batch size \<^verbatim>\<open>calculate_page_breaks\<close> derives when \<^verbatim>\<open>items_per_page\<close> is omitted
  or falsy.
\<close>

definition derived_items_per_page :: "LayoutConfig \<Rightarrow> py_error + int" where
  "derived_items_per_page c =
     (let available_height = fmul (printable_height_mm c) (Fin (round64 0.6));
          item_height = (if is_thermal (size_b c) then 5 else 7)
      in case fdiv available_height (Fin item_height) of
           Inl e \<Rightarrow> Inl e
         | Inr q \<Rightarrow> float_int q)"

text \<open>
  \<^verbatim>\<open>range\<close> raises \<^verbatim>\<open>ValueError\<close> on a step of zero and is empty on a negative step
  (its stop, a length, is not negative).
\<close>

definition calculate_page_breaks ::
  "LayoutConfig \<Rightarrow> 'a list \<Rightarrow> int option \<Rightarrow> py_error + 'a list list" where
  "calculate_page_breaks c items items_per_page =
     (if \<not> needs_pagination c (estimate_content_height c (int (length items)) False False)
      then Inr [items]
      else
        (case (case items_per_page of
                 None \<Rightarrow> derived_items_per_page c
               | Some k \<Rightarrow> if k = 0 then derived_items_per_page c else Inr k) of
           Inl e \<Rightarrow> Inl e
         | Inr per_page \<Rightarrow>
             if per_page = 0 then Inl ValueError
             else if per_page < 0 then Inr []
             else Inr (page_loop 0 (nat per_page) items)))"


section \<open>Thermal text formatter\<close>

definition optimize_for_thermal :: "ustr \<Rightarrow> int \<Rightarrow> ustr" where
  "optimize_for_thermal text0 width_chars =
     (if int (length text0) \<le> width_chars then text0
      else if width_chars > 3 then py_take (width_chars - 3) text0 @ ascii ''...''
      else py_take width_chars text0)"

definition format_thermal_line :: "ustr \<Rightarrow> ustr \<Rightarrow> int \<Rightarrow> ustr" where
  "format_thermal_line left right width =
     (let padding = width - int (length left) - int (length right);
          (left1, right1, padding1) =
            (if padding < 0 then
               (let available = width - 3;
                    left_chars = py_int (of_int available * 0.6);
                    right_chars = available - left_chars;
                    left' = optimize_for_thermal left left_chars;
                    right' = optimize_for_thermal right right_chars
                in (left', right', width - int (length left') - int (length right')))
             else (left, right, padding))
      in left1 @ replicate (nat (max padding1 1)) 32 @ right1)"


section \<open>Binary64 rounding\<close>

text \<open>
  Rounding is monotone, commutes with negation and leaves every double where it is;
  these are the facts the later sections compute with.
\<close>

lemma round_even_of_int: "round_even (of_int k) = k"
  by (simp add: round_even_def)

lemma round_even_bounds: "\<lfloor>y\<rfloor> \<le> round_even y" "round_even y \<le> \<lfloor>y\<rfloor> + 1"
  by (simp_all add: round_even_def Let_def)

lemma round_even_near:
  assumes "\<bar>y - of_int k\<bar> < 1 / 2"
  shows "round_even y = k"
proof (cases "of_int k \<le> y")
  case True
  then have f: "\<lfloor>y\<rfloor> = k" using assms by (intro floor_unique) auto
  then show ?thesis using assms True by (simp add: round_even_def Let_def)
next
  case False
  then have f: "\<lfloor>y\<rfloor> = k - 1" using assms by (intro floor_unique) auto
  then show ?thesis using assms False by (simp add: round_even_def Let_def)
qed

lemma round_even_mono:
  assumes "x \<le> y"
  shows "round_even x \<le> round_even y"
proof (cases "\<lfloor>x\<rfloor> = \<lfloor>y\<rfloor>")
  case True
  then show ?thesis using assms by (auto simp add: round_even_def Let_def)
next
  case False
  then have "\<lfloor>x\<rfloor> < \<lfloor>y\<rfloor>" using floor_mono [OF assms] by simp
  then have "\<lfloor>x\<rfloor> + 1 \<le> \<lfloor>y\<rfloor>" by simp
  with round_even_bounds(2) [of x] round_even_bounds(1) [of y] show ?thesis by linarith
qed

lemma round_even_minus: "round_even (- y) = - round_even y"
proof (cases "y = of_int \<lfloor>y\<rfloor>")
  case True
  then obtain k where "y = of_int k" ..
  then show ?thesis by (simp add: round_even_of_int flip: of_int_minus)
next
  case False
  then have c: "\<lceil>y\<rceil> = \<lfloor>y\<rfloor> + 1" by (simp add: ceiling_altdef)
  have fm: "\<lfloor>- y\<rfloor> = - \<lfloor>y\<rfloor> - 1" using c by (simp add: floor_minus)
  have d: "0 < y - of_int \<lfloor>y\<rfloor>" using False by (smt (verit) of_int_floor_le)
  show ?thesis
    using d by (auto simp add: round_even_def Let_def fm)
qed


lemma ulp_exp_minus: "ulp_exp (- x) = ulp_exp x"
  by (simp add: ulp_exp_def)

lemma round64_minus: "round64 (- x) = - round64 x"
  by (simp add: round64_def ulp_exp_minus round_even_minus)

lemma round64_0: "round64 0 = 0"
  by (simp add: round64_def)

lemma p2_pos [simp]: "0 < p2 e" by (simp add: p2_def)

lemma p2_nonneg [simp]: "0 \<le> p2 e" by (simp add: p2_def)

lemma p2_neq0 [simp]: "p2 e \<noteq> 0" by (simp add: p2_def)

lemma p2_add: "p2 (a + b) = p2 a * p2 b"
  by (simp add: p2_def powr_add)

lemma p2_mono: "a \<le> b \<Longrightarrow> p2 a \<le> p2 b"
  by (simp add: p2_def)

lemma p2_nonneg_int: "0 \<le> e \<Longrightarrow> p2 e = of_int (2 ^ nat e)"
  by (simp add: p2_def powr_real_of_int)

lemma p2_eval: "p2 e = (if 0 \<le> e then 2 ^ nat e else inverse (2 ^ nat (- e)))"
  by (simp add: p2_def powr_real_of_int)

lemma p2_0: "p2 0 = 1" by (simp add: p2_def)

text \<open>The binade of a positive number.\<close>

lemma binade:
  assumes "0 < x"
  shows "p2 \<lfloor>log 2 x\<rfloor> \<le> x" and "x < p2 (\<lfloor>log 2 x\<rfloor> + 1)"
  using floor_log_eq_powr_iff [of x 2 "\<lfloor>log 2 x\<rfloor>"] assms by (simp_all add: p2_def)

lemma ulp_exp_ge: "- 1074 \<le> ulp_exp x" "\<lfloor>log 2 \<bar>x\<bar>\<rfloor> - 52 \<le> ulp_exp x"
  by (simp_all add: ulp_exp_def)

lemma below_top:
  assumes "0 < x"
  shows "x < p2 (ulp_exp x + 53)"
proof -
  have "\<lfloor>log 2 x\<rfloor> + 1 \<le> ulp_exp x + 53"
    using ulp_exp_ge(2) [of x] assms by simp
  then have "p2 (\<lfloor>log 2 x\<rfloor> + 1) \<le> p2 (ulp_exp x + 53)" by (rule p2_mono)
  with binade(2) [OF assms] show ?thesis by linarith
qed

lemma round64_nonneg:
  assumes "0 \<le> x"
  shows "0 \<le> round64 x"
proof (cases "x = 0")
  case True then show ?thesis by (simp add: round64_0)
next
  case False
  with assms have "0 \<le> x / p2 (ulp_exp x)" by simp
  then have "0 \<le> \<lfloor>x / p2 (ulp_exp x)\<rfloor>" by simp
  with round_even_bounds(1) [of "x / p2 (ulp_exp x)"]
  have "0 \<le> round_even (x / p2 (ulp_exp x))" by linarith
  then show ?thesis using False by (simp add: round64_def)
qed

text \<open>A rounded positive number stays within its binade, ends included.\<close>

lemma round64_le_top:
  assumes "0 < x"
  shows "round64 x \<le> p2 (ulp_exp x + 53)"
proof -
  let ?u = "p2 (ulp_exp x)"
  have "x / ?u < p2 53"
    using below_top [OF assms] by (simp add: p2_add field_simps)
  then have "x / ?u < of_int (2 ^ 53)" by (simp add: p2_nonneg_int)
  then have "\<lfloor>x / ?u\<rfloor> < 2 ^ 53" by (simp only: floor_less_iff)
  with round_even_bounds(2) [of "x / ?u"] have "round_even (x / ?u) \<le> 2 ^ 53" by linarith
  then have "real_of_int (round_even (x / ?u)) \<le> of_int (2 ^ 53)" by (simp only: of_int_le_iff)
  then have "real_of_int (round_even (x / ?u)) * ?u \<le> of_int (2 ^ 53) * ?u"
    by (simp only: mult_le_cancel_right_pos p2_pos)
  then show ?thesis using assms by (simp add: round64_def p2_add p2_nonneg_int mult.commute)
qed

lemma round64_ge_bottom:
  assumes "0 < x" and "p2 (e + 52) \<le> x" and "ulp_exp x = e"
  shows "p2 (e + 52) \<le> round64 x"
proof -
  let ?u = "p2 e"
  have "p2 52 \<le> x / ?u"
    using assms(2) by (simp add: p2_add field_simps)
  then have "of_int (2 ^ 52) \<le> x / ?u" by (simp add: p2_nonneg_int)
  then have "2 ^ 52 \<le> \<lfloor>x / ?u\<rfloor>" by (simp only: le_floor_iff)
  with round_even_bounds(1) [of "x / ?u"] have "2 ^ 52 \<le> round_even (x / ?u)" by linarith
  then have "of_int (2 ^ 52) \<le> real_of_int (round_even (x / ?u))" by (simp only: of_int_le_iff)
  then have "of_int (2 ^ 52) * ?u \<le> real_of_int (round_even (x / ?u)) * ?u"
    by (simp only: mult_le_cancel_right_pos p2_pos)
  then show ?thesis using assms by (simp add: round64_def p2_add p2_nonneg_int mult.commute)
qed

lemma ulp_exp_mono:
  assumes "0 < x" "x \<le> y"
  shows "ulp_exp x \<le> ulp_exp y"
proof -
  have "log 2 x \<le> log 2 y" using assms by simp
  then have "\<lfloor>log 2 x\<rfloor> \<le> \<lfloor>log 2 y\<rfloor>" by (rule floor_mono)
  then show ?thesis using assms by (simp add: ulp_exp_def)
qed

lemma round64_mono_pos:
  assumes "0 < x" "x \<le> y"
  shows "round64 x \<le> round64 y"
proof (cases "ulp_exp x = ulp_exp y")
  case True
  have "x / p2 (ulp_exp y) \<le> y / p2 (ulp_exp y)"
    using assms by (simp add: divide_right_mono)
  then have "round_even (x / p2 (ulp_exp y)) \<le> round_even (y / p2 (ulp_exp y))"
    by (rule round_even_mono)
  then have "real_of_int (round_even (x / p2 (ulp_exp y))) * p2 (ulp_exp y)
             \<le> real_of_int (round_even (y / p2 (ulp_exp y))) * p2 (ulp_exp y)"
    by (simp only: mult_le_cancel_right_pos p2_pos of_int_le_iff)
  then show ?thesis using assms True by (simp add: round64_def)
next
  case False
  with ulp_exp_mono [OF assms] have lt: "ulp_exp x < ulp_exp y" by simp
  have y: "0 < y" using assms by simp
  text \<open>The exponent of \<open>y\<close> is not the least one, so it is the one of its binade.\<close>
  have "- 1074 < ulp_exp y" using lt ulp_exp_ge(1) [of x] by simp
  then have ey: "ulp_exp y = \<lfloor>log 2 y\<rfloor> - 52" using y by (simp add: ulp_exp_def max_def split: if_splits)
  then have "p2 (ulp_exp y + 52) \<le> y" using binade(1) [OF y] by simp
  from round64_ge_bottom [OF y this refl] have hi: "p2 (ulp_exp y + 52) \<le> round64 y" .
  have "ulp_exp x + 53 \<le> ulp_exp y + 52" using lt by simp
  then have "p2 (ulp_exp x + 53) \<le> p2 (ulp_exp y + 52)" by (rule p2_mono)
  with round64_le_top [OF assms(1)] hi show ?thesis by linarith
qed

lemma round64_mono:
  assumes "x \<le> y"
  shows "round64 x \<le> round64 y"
proof -
  consider "0 < x" | "x \<le> 0" "0 \<le> y" | "y < 0" by linarith
  then show ?thesis
  proof cases
    case 1
    then show ?thesis using assms by (rule round64_mono_pos)
  next
    case 2
    have "round64 x \<le> 0" using round64_nonneg [of "- x"] 2(1) by (simp add: round64_minus)
    with round64_nonneg [OF 2(2)] show ?thesis by simp
  next
    case 3
    then have "0 < - y" "- y \<le> - x" using assms by simp_all
    from round64_mono_pos [OF this] show ?thesis by (simp add: round64_minus)
  qed
qed

text \<open>A number with a significand of 53 bits, not below the least exponent, is a double.\<close>

lemma round64_fixed:
  assumes "\<bar>k\<bar> < 2 ^ 53" and "- 1074 \<le> e"
  shows "round64 (of_int k * p2 e) = of_int k * p2 e"
proof (cases "k = 0")
  case True then show ?thesis by (simp add: round64_0)
next
  case False
  let ?x = "of_int k * p2 e"
  have x0: "?x \<noteq> 0" using False by simp
  have ax: "\<bar>?x\<bar> = of_int \<bar>k\<bar> * p2 e" by (simp add: abs_mult)
  have "real_of_int \<bar>k\<bar> < of_int (2 ^ 53)" using assms(1) by (simp only: of_int_less_iff)
  then have "\<bar>?x\<bar> < p2 53 * p2 e" unfolding ax by (simp add: p2_nonneg_int)
  then have lt: "\<bar>?x\<bar> < p2 (e + 53)" by (simp add: p2_add mult.commute)
  have "\<lfloor>log 2 \<bar>?x\<bar>\<rfloor> < e + 53"
  proof (rule ccontr)
    assume "\<not> \<lfloor>log 2 \<bar>?x\<bar>\<rfloor> < e + 53"
    then have "p2 (e + 53) \<le> p2 \<lfloor>log 2 \<bar>?x\<bar>\<rfloor>" by (intro p2_mono) simp
    also have "\<dots> \<le> \<bar>?x\<bar>" using binade(1) [of "\<bar>?x\<bar>"] x0 by simp
    finally show False using lt by simp
  qed
  then have E: "ulp_exp ?x \<le> e" using assms(2) by (simp add: ulp_exp_def)
  define n where "n = nat (e - ulp_exp ?x)"
  have pe: "p2 e = of_int (2 ^ n) * p2 (ulp_exp ?x)"
  proof -
    have "p2 e = p2 (e - ulp_exp ?x) * p2 (ulp_exp ?x)" by (simp flip: p2_add)
    then show ?thesis using E by (simp add: p2_nonneg_int n_def)
  qed
  have "?x / p2 (ulp_exp ?x) = of_int (k * 2 ^ n)"
    by (subst pe) simp
  then have "round_even (?x / p2 (ulp_exp ?x)) = k * 2 ^ n"
    by (simp only: round_even_of_int)
  then have "round64 ?x = of_int (k * 2 ^ n) * p2 (ulp_exp ?x)"
    using x0 by (simp only: round64_def if_False)
  also have "\<dots> = ?x" by (subst (2) pe) simp
  finally show ?thesis .
qed

lemma round64_int: "\<bar>k\<bar> < 2 ^ 53 \<Longrightarrow> round64 (of_int k) = of_int k"
  using round64_fixed [of k 0] by (simp add: p2_0)

lemma round64_near:
  assumes "- 1074 \<le> e"
    and "p2 (e + 52) \<le> \<bar>x\<bar>" and "\<bar>x\<bar> < p2 (e + 53)"
    and "\<bar>x - of_int k * p2 e\<bar> < p2 e / 2"
  shows "round64 x = of_int k * p2 e"
proof -
  have x0: "x \<noteq> 0"
  proof
    assume "x = 0"
    with assms(2) have "p2 (e + 52) \<le> 0" by simp
    with p2_pos [of "e + 52"] show False by linarith
  qed
  then have "\<lfloor>log 2 \<bar>x\<bar>\<rfloor> = e + 52"
    using assms(2,3) floor_log_eq_powr_iff [of "\<bar>x\<bar>" 2 "e + 52"] by (simp add: p2_def add.assoc)
  then have E: "ulp_exp x = e" using assms(1) by (simp add: ulp_exp_def)
  have "x / p2 e - of_int k = (x - of_int k * p2 e) / p2 e"
    using p2_pos [of e] by (simp add: field_simps)
  then have "\<bar>x / p2 e - of_int k\<bar> = \<bar>x - of_int k * p2 e\<bar> / p2 e"
    using p2_pos [of e] by (simp add: abs_divide del: of_int_mult)
  also have "\<dots> < 1 / 2" using assms(4) p2_pos [of e] by (simp add: field_simps)
  finally have "round_even (x / p2 e) = k" by (rule round_even_near)
  then show ?thesis using x0 E by (simp add: round64_def)
qed

lemma max_float_big: "2 ^ 53 \<le> max_float"
  by (simp add: max_float_def)

lemma round64_between:
  assumes "round64 a = a" "round64 b = b" "a \<le> x" "x \<le> b"
  shows "a \<le> round64 x" "round64 x \<le> b"
  using round64_mono [OF assms(3)] round64_mono [OF assms(4)] assms(1,2) by simp_all

lemma round64_int_between:
  assumes "of_int a \<le> x" "x \<le> of_int b" "\<bar>a\<bar> < 2 ^ 53" "\<bar>b\<bar> < 2 ^ 53"
  shows "of_int a \<le> round64 x" "round64 x \<le> of_int b"
  using round64_between [OF round64_int [OF assms(3)] round64_int [OF assms(4)] assms(1,2)]
  by simp_all

lemma pack_Fin:
  assumes "\<bar>round64 x\<bar> \<le> max_float"
  shows "pack x = Fin (round64 x)"
proof -
  have "\<not> max_float < round64 x" "\<not> round64 x < - max_float" using assms by linarith+
  then show ?thesis by (simp add: pack_def Let_def)
qed

lemma pack_bounded:
  assumes "\<bar>x\<bar> \<le> of_int K" "K < 2 ^ 53"
  shows "pack x = Fin (round64 x)"
proof -
  have K0: "0 \<le> K" using assms(1) by linarith
  have a: "real_of_int (- K) \<le> x" "x \<le> real_of_int K" using assms(1) by simp_all
  have "\<bar>- K\<bar> < 2 ^ 53" "\<bar>K\<bar> < 2 ^ 53" using assms(2) K0 by simp_all
  from round64_int_between [OF a this]
  have "\<bar>round64 x\<bar> \<le> of_int K" by simp
  also have "\<dots> \<le> 2 ^ 53" using assms(2) by (simp add: of_int_le_numeral_power_cancel_iff)
  also note max_float_big
  finally show ?thesis by (rule pack_Fin)
qed

lemma pack_int: "\<bar>k\<bar> < 2 ^ 53 \<Longrightarrow> pack (of_int k) = Fin (of_int k)"
  using pack_bounded [of "of_int k" "\<bar>k\<bar>"] by (simp add: round64_int)

lemma pack_numeral [simp]: "numeral n < (2::int) ^ 53 \<Longrightarrow> pack (numeral n) = Fin (numeral n)"
  using pack_int [of "numeral n"] by simp

lemma pack_0 [simp]: "pack 0 = Fin 0"
  using pack_int [of 0] by simp

lemma pack_1 [simp]: "pack 1 = Fin 1"
  using pack_int [of 1] by simp

lemma round64_numeral [simp]:
  "numeral n < (2::int) ^ 53 \<Longrightarrow> round64 (numeral n) = numeral n"
  using round64_int [of "numeral n"] by simp

lemma pack_neg_numeral [simp]:
  "numeral n < (2::int) ^ 53 \<Longrightarrow> pack (- numeral n) = Fin (- numeral n)"
  using pack_int [of "- numeral n"] by simp

lemma max_float_numeral [simp]:
  "numeral n < (2::int) ^ 53 \<Longrightarrow> \<not> max_float < numeral n"
proof -
  assume "numeral n < (2::int) ^ 53"
  then have "real_of_int (numeral n) < real_of_int (2 ^ 53)" by (simp only: of_int_less_iff)
  then have "(numeral n :: real) < 2 ^ 53" by (simp only: of_int_numeral of_int_power)
  with max_float_big show ?thesis by linarith
qed

lemma max_float_pos [simp]: "\<not> max_float < 0" "0 < max_float"
  by (simp_all add: max_float_def)


lemma pack_not_NaN [simp]: "pack x \<noteq> NaN"
  by (simp add: pack_def Let_def)


lemma p2_neg: "p2 (- int n) = 1 / 2 ^ n"
  by (simp add: p2_def powr_minus powr_realpow field_simps)

lemma round64_dyadic:
  assumes "\<bar>k\<bar> < 2 ^ 53" "n \<le> 1074"
  shows "round64 (of_int k / 2 ^ n) = of_int k / 2 ^ n"
  using round64_fixed [OF assms(1), of "- int n"] assms(2) by (simp add: p2_neg)

lemma round64_near_div:
  assumes "n \<le> 1074" "2 ^ 52 \<le> \<bar>x\<bar> * 2 ^ n" "\<bar>x\<bar> * 2 ^ n < 2 ^ 53"
    and "\<bar>x * 2 ^ n - of_int k\<bar> < 1 / 2"
  shows "round64 x = of_int k / 2 ^ n"
proof -
  have e: "- 1074 \<le> - int n" using assms(1) by simp
  have q: "p2 52 = 2 ^ 52" "p2 53 = 2 ^ 53" by (simp_all add: p2_nonneg_int)
  have "p2 (- int n + 52) = p2 (- int n) * p2 52" "p2 (- int n + 53) = p2 (- int n) * p2 53"
    by (rule p2_add)+
  then have p: "p2 (- int n + 52) = 2 ^ 52 / 2 ^ n" "p2 (- int n + 53) = 2 ^ 53 / 2 ^ n"
    unfolding p2_neg q by simp_all
  have a: "p2 (- int n + 52) \<le> \<bar>x\<bar>" unfolding p using assms(2) by (simp add: field_simps)
  have b: "\<bar>x\<bar> < p2 (- int n + 53)" unfolding p using assms(3) by (simp add: field_simps)
  have "x - of_int k * p2 (- int n) = (x * 2 ^ n - of_int k) / 2 ^ n"
    by (simp add: p2_neg field_simps)
  then have "\<bar>x - of_int k * p2 (- int n)\<bar> = \<bar>x * 2 ^ n - of_int k\<bar> / 2 ^ n"
    by (simp add: abs_divide del: of_int_mult)
  also have "\<dots> < (1 / 2) / 2 ^ n" using assms(4) by (rule divide_strict_right_mono) simp
  finally have c: "\<bar>x - of_int k * p2 (- int n)\<bar> < p2 (- int n) / 2"
    by (simp add: p2_neg)
  from round64_near [OF e a b c] show ?thesis by (simp add: p2_neg)
qed

text \<open>The literals \<^verbatim>\<open>0.85\<close> and \<^verbatim>\<open>0.6\<close> as doubles.\<close>

lemma round64_085:
  "round64 0.85 = 7656119366529843 / 2 ^ 53"
  "round64 (17 / 20) = 7656119366529843 / 2 ^ 53"
  using round64_near_div [of 53 "0.85" 7656119366529843] by simp_all

lemma round64_06:
  "round64 0.6 = 5404319552844595 / 2 ^ 53"
  "round64 (3 / 5) = 5404319552844595 / 2 ^ 53"
  using round64_near_div [of 53 "0.6" 5404319552844595] by simp_all

lemma literal_bounds:
  "217 / 256 \<le> round64 0.85" "round64 0.85 \<le> 218 / 256"
  "39321 / 65536 \<le> round64 0.6" "round64 0.6 \<le> 39322 / 65536"
  by (simp_all add: round64_085 round64_06)


section \<open>Facts about the tables\<close>

lemma paper_neq_thermal:
  "ascii ''paper'' \<noteq> ascii ''thermal''" "ascii ''thermal'' \<noteq> ascii ''paper''"
  by (simp_all add: ascii_def)

lemma length_ascii: "length (ascii s) = length s"
  by (simp add: ascii_def)

lemma category_cases:
  "category sz = (if is_thermal sz then ascii ''thermal'' else ascii ''paper'')"
  by (cases sz) (simp_all add: is_thermal_def paper_neq_thermal)

lemma is_thermal_cases:
  "is_thermal sz = (sz = THERMAL_57 \<or> sz = THERMAL_58 \<or> sz = THERMAL_76 \<or> sz = THERMAL_80)"
  by (cases sz) (simp_all add: is_thermal_def paper_neq_thermal)

lemma is_continuous_thermal: "is_continuous sz = is_thermal sz"
  by (cases sz) (simp_all add: is_continuous_def is_thermal_def paper_neq_thermal)



lemma MIN_MARGINS_paper_sides:
  "top_m MIN_MARGINS_paper = 5" "right_m MIN_MARGINS_paper = 5"
  "bottom_m MIN_MARGINS_paper = 5" "left_m MIN_MARGINS_paper = 5"
  by (simp_all add: MIN_MARGINS_paper_def Margins_def)

lemma MIN_MARGINS_thermal_sides:
  "top_m MIN_MARGINS_thermal = 2" "right_m MIN_MARGINS_thermal = 2"
  "bottom_m MIN_MARGINS_thermal = 2" "left_m MIN_MARGINS_thermal = 2"
  by (simp_all add: MIN_MARGINS_thermal_def Margins_def)

lemma min_margins_cases:
  "py_get MIN_MARGINS cat MIN_MARGINS_paper =
     (if cat = ascii ''thermal'' then MIN_MARGINS_thermal else MIN_MARGINS_paper)"
  by (simp add: py_get_def MIN_MARGINS_def paper_neq_thermal)

lemma default_margins_sides:
  "top_m (default_margins sz st) = right_m (default_margins sz st)"
  "bottom_m (default_margins sz st) = right_m (default_margins sz st)"
  "left_m (default_margins sz st) = right_m (default_margins sz st)"
  "right_m (default_margins sz st) =
     (if is_thermal sz then (if st = COMPACT then 2 else 3)
      else if sz = A3 \<or> sz = LETTER \<or> sz = LEGAL then 15
      else if sz = A4 then 12
      else if sz = A5 \<or> sz = HALF_LETTER then 10 else 5)"
  by (simp_all add: default_margins_def Margins_def DEFAULT_MARGINS_paper_large_def
        DEFAULT_MARGINS_paper_medium_def DEFAULT_MARGINS_paper_small_def
        DEFAULT_MARGINS_paper_strip_def DEFAULT_MARGINS_thermal_standard_def
        DEFAULT_MARGINS_thermal_minimal_def)

lemma default_config_fields:
  "size_b (get_default_config sz st) = sz"
  "style (get_default_config sz st) = st"
  "margins (get_default_config sz st) = as_float (default_margins sz st)"
  "wrap_item_names (get_default_config sz st) = (\<not> is_thermal sz)"
  "max_lines_per_item (get_default_config sz st) = (if is_thermal sz then 1 else 3)"
  "page_break_threshold (get_default_config sz st) = round64 0.85"
  by (simp_all add: get_default_config_def Let_def)


section \<open>Margin validation\<close>

lemma margin_errors_Nil:
  "(margin_errors m mn = []) =
     (of_int (top_m mn) \<le> top_m m \<and> of_int (right_m mn) \<le> right_m m \<and>
      of_int (bottom_m mn) \<le> bottom_m m \<and> of_int (left_m mn) \<le> left_m m)"
  by (simp add: margin_errors_def not_less)

lemma validate_margins_eq:
  "validate_margins m cat =
     (margin_errors m (py_get MIN_MARGINS cat MIN_MARGINS_paper) = [],
      py_join (ascii ''; '') (margin_errors m (py_get MIN_MARGINS cat MIN_MARGINS_paper)))"
  by (simp add: validate_margins_def Let_def)

lemma validate_margins_valid:
  "margin_errors m (py_get MIN_MARGINS cat MIN_MARGINS_paper) = [] \<Longrightarrow>
   validate_margins m cat = (True, [])"
  by (simp add: validate_margins_def Let_def)

lemma str_int_digit: "0 \<le> i \<Longrightarrow> i < 10 \<Longrightarrow> str_int i = [48 + nat i]"
  by (simp add: str_int_def)

lemma too_small_5: "too_small side 5 = side @ ascii '' margin too small (min: 5mm)''"
  by (simp add: too_small_def str_int_digit ascii_def)

lemma too_small_2: "too_small side 2 = side @ ascii '' margin too small (min: 2mm)''"
  by (simp add: too_small_def str_int_digit ascii_def)

text \<open>
  Claim C3. For every size and style, the four margins of the configuration that
  \<^verbatim>\<open>get_default_config\<close> returns are strictly positive, and \<^verbatim>\<open>validate_margins\<close> accepts
  them for the category of the size: it returns \<^verbatim>\<open>(True, "")\<close>.
\<close>

theorem default_margins_accepted:
  "0 < top_m (margins (get_default_config sz st)) \<and>
   0 < right_m (margins (get_default_config sz st)) \<and>
   0 < bottom_m (margins (get_default_config sz st)) \<and>
   0 < left_m (margins (get_default_config sz st)) \<and>
   validate_margins (margins (get_default_config sz st)) (category sz) = (True, [])"
proof -
  let ?m = "as_float (default_margins sz st)"
  have pos: "0 < top_m ?m \<and> 0 < right_m ?m \<and> 0 < bottom_m ?m \<and> 0 < left_m ?m"
    by (simp add: as_float_def default_margins_sides)
  have "margin_errors ?m (py_get MIN_MARGINS (category sz) MIN_MARGINS_paper) = []"
    by (simp add: margin_errors_Nil min_margins_cases category_cases paper_neq_thermal
          MIN_MARGINS_paper_sides MIN_MARGINS_thermal_sides as_float_def default_margins_sides)
  then have "validate_margins ?m (category sz) = (True, [])"
    by (rule validate_margins_valid)
  with pos show ?thesis
    by (simp only: default_config_fields simp_thms)
qed

theorem default_margins_accepted_witness:
  "margins (get_default_config CASH_RECEIPT MINIMAL) = Margins 5 5 5 5 \<and>
   validate_margins (Margins 5 5 5 5) (ascii ''paper'') = (True, [])"
proof -
  have m: "margins (get_default_config CASH_RECEIPT MINIMAL) = Margins 5 5 5 5"
    by (simp add: default_config_fields as_float_def default_margins_def is_thermal_cases
          DEFAULT_MARGINS_paper_strip_def Margins_def)
  from default_margins_accepted [of CASH_RECEIPT MINIMAL] m show ?thesis
    by simp
qed

text \<open>
  Claim C7. For the categories \<^verbatim>\<open>"paper"\<close> and \<^verbatim>\<open>"thermal"\<close>, \<^verbatim>\<open>validate_margins\<close> returns a
  pair and raises nothing (no step of it can raise). Its first component is false exactly
  when one of the four sides is below the minimum of the category (5 for paper, 2 for
  thermal), and its message joins with \<^verbatim>\<open>"; "\<close> one sentence for every failing side,
  in the order top, right, bottom, left; it is empty when no side fails.
\<close>

theorem validate_margins_lists_all:
  assumes "cat = ascii ''paper'' \<or> cat = ascii ''thermal''"
  shows "validate_margins m cat =
     (let mn = (if cat = ascii ''paper'' then 5 else 2);
          shown = (if cat = ascii ''paper'' then ascii ''5mm'' else ascii ''2mm'');
          failing = [side. (side, v) \<leftarrow> [(ascii ''Top'', top_m m), (ascii ''Right'', right_m m),
                       (ascii ''Bottom'', bottom_m m), (ascii ''Left'', left_m m)], v < mn]
      in (\<not> (top_m m < mn \<or> right_m m < mn \<or> bottom_m m < mn \<or> left_m m < mn),
          py_join (ascii ''; '')
            [side @ ascii '' margin too small (min: '' @ shown @ ascii '')''. side \<leftarrow> failing]))"
proof -
  from assms show ?thesis
  proof
    assume c: "cat = ascii ''paper''"
    have g: "py_get MIN_MARGINS cat MIN_MARGINS_paper = MIN_MARGINS_paper"
      by (simp add: c min_margins_cases paper_neq_thermal)
    show ?thesis
      unfolding validate_margins_eq g
      by (simp add: c margin_errors_Nil margin_errors_def MIN_MARGINS_paper_sides too_small_5
            not_less ascii_def)
  next
    assume c: "cat = ascii ''thermal''"
    have g: "py_get MIN_MARGINS cat MIN_MARGINS_paper = MIN_MARGINS_thermal"
      by (simp add: c min_margins_cases)
    show ?thesis
      unfolding validate_margins_eq g
      by (simp add: c margin_errors_Nil margin_errors_def MIN_MARGINS_thermal_sides too_small_2
            not_less paper_neq_thermal ascii_def)
  qed
qed

theorem validate_margins_lists_all_witness:
  "validate_margins (Margins 2 10 3 10) (ascii ''paper'') =
     (False, ascii ''Top margin too small (min: 5mm); Bottom margin too small (min: 5mm)'')"
proof -
  have c: "ascii ''paper'' = ascii ''paper'' \<or> ascii ''paper'' = ascii ''thermal''"
    by simp
  show ?thesis
    unfolding validate_margins_lists_all [OF c, of "Margins 2 10 3 10"]
    by (simp add: Margins_def ascii_def)
qed

text \<open>
  Claim C8. For a category that is neither \<^verbatim>\<open>"paper"\<close> nor \<^verbatim>\<open>"thermal"\<close>,
  \<^verbatim>\<open>validate_margins\<close> raises nothing and returns what it returns for \<^verbatim>\<open>"paper"\<close>: the
  margins are compared with 5 on every side.
\<close>

theorem validate_margins_unknown_category:
  assumes "cat \<noteq> ascii ''paper''" and "cat \<noteq> ascii ''thermal''"
  shows "validate_margins m cat = validate_margins m (ascii ''paper'') \<and>
         fst (validate_margins m cat) =
           (5 \<le> top_m m \<and> 5 \<le> right_m m \<and> 5 \<le> bottom_m m \<and> 5 \<le> left_m m)"
proof -
  have g: "py_get MIN_MARGINS cat MIN_MARGINS_paper = MIN_MARGINS_paper"
    using assms by (simp add: min_margins_cases)
  have p: "py_get MIN_MARGINS (ascii ''paper'') MIN_MARGINS_paper = MIN_MARGINS_paper"
    by (simp add: min_margins_cases paper_neq_thermal)
  have "validate_margins m cat = validate_margins m (ascii ''paper'')"
    by (simp add: validate_margins_def g p)
  moreover have "fst (validate_margins m cat) =
           (5 \<le> top_m m \<and> 5 \<le> right_m m \<and> 5 \<le> bottom_m m \<and> 5 \<le> left_m m)"
    by (simp add: validate_margins_eq g margin_errors_Nil MIN_MARGINS_paper_sides)
  ultimately show ?thesis by simp
qed

theorem validate_margins_unknown_category_witness:
  "validate_margins (Margins 3 3 3 3) (ascii ''cardboard'') =
     validate_margins (Margins 3 3 3 3) (ascii ''paper'') \<and>
   fst (validate_margins (Margins 3 3 3 3) (ascii ''cardboard'')) = False \<and>
   fst (validate_margins (Margins 3 3 3 3) (ascii ''thermal'')) = True"
proof -
  have a: "ascii ''cardboard'' \<noteq> ascii ''paper''" and b: "ascii ''cardboard'' \<noteq> ascii ''thermal''"
    by (simp_all add: ascii_def)
  note w = validate_margins_unknown_category [OF a b, of "Margins 3 3 3 3"]
  from w have 1: "validate_margins (Margins 3 3 3 3) (ascii ''cardboard'') =
     validate_margins (Margins 3 3 3 3) (ascii ''paper'')"
    by (rule conjunct1)
  from w have "fst (validate_margins (Margins 3 3 3 3) (ascii ''cardboard'')) =
      (5 \<le> top_m (Margins 3 3 3 3 :: real Margins) \<and> 5 \<le> right_m (Margins 3 3 3 3 :: real Margins) \<and>
       5 \<le> bottom_m (Margins 3 3 3 3 :: real Margins) \<and> 5 \<le> left_m (Margins 3 3 3 3 :: real Margins))"
    by (rule conjunct2)
  then have 2: "fst (validate_margins (Margins 3 3 3 3) (ascii ''cardboard'')) = False"
    by (simp add: Margins_def)
  have 3: "fst (validate_margins (Margins 3 3 3 3) (ascii ''thermal'')) = True"
    by (simp add: validate_margins_eq min_margins_cases margin_errors_Nil
          MIN_MARGINS_thermal_sides Margins_def)
  from 1 2 3 show ?thesis by (intro conjI)
qed


section \<open>Nearest size\<close>



lemma flt_irrefl: "\<not> flt a a"
  by (cases a) simp_all



















section \<open>Pagination test\<close>

lemma default_printable_height:
  "printable_height_mm (get_default_config sz st) =
     (if is_thermal sz then Fin 0
      else Fin (of_int (height_mm sz - 2 * right_m (default_margins sz st))))"
  by (cases sz)
     (simp_all add: printable_height_mm_def default_config_fields is_continuous_thermal
        vertical_total_def as_float_def default_margins_sides fsub_def is_thermal_cases)

text \<open>The printable heights of the paper sizes lie between 179 and 390 mm.\<close>

lemma default_height_range:
  assumes "\<not> is_thermal sz"
  shows "179 \<le> height_mm sz - 2 * right_m (default_margins sz st)"
    and "height_mm sz - 2 * right_m (default_margins sz st) \<le> 390"
  using assms by (cases sz; simp add: default_margins_sides is_thermal_cases)+

text \<open>
  The threshold of a page whose printable height is \<open>H\<close>, between \<open>H * 217/256\<close> and
  \<open>H * 218/256\<close>.
\<close>

lemma threshold_value:
  assumes "0 \<le> H" "H \<le> 1000"
  shows "fmul (Fin H) (Fin (round64 0.85)) = Fin (round64 (H * round64 0.85))"
proof -
  have "0 \<le> H * round64 0.85" "H * round64 0.85 \<le> 1000 * 1"
    using assms literal_bounds(1,2) by (simp, intro mult_mono, simp_all)
  then have "\<bar>H * round64 0.85\<bar> \<le> of_int 1000" by simp
  then have "pack (H * round64 0.85) = Fin (round64 (H * round64 0.85))"
    by (rule pack_bounded) simp
  then show ?thesis by simp
qed

lemma threshold_bounds:
  assumes "0 \<le> H" "of_int a \<le> H * (217 / 256)" "H * (218 / 256) \<le> of_int b"
    "\<bar>a\<bar> < 2 ^ 53" "\<bar>b\<bar> < 2 ^ 53"
  shows "of_int a \<le> round64 (H * round64 0.85)" "round64 (H * round64 0.85) \<le> of_int b"
proof -
  have "H * (217 / 256) \<le> H * round64 0.85"
    by (rule mult_left_mono [OF literal_bounds(1) assms(1)])
  moreover have "H * round64 0.85 \<le> H * (218 / 256)"
    by (rule mult_left_mono [OF literal_bounds(2) assms(1)])
  ultimately have "H * (217 / 256) \<le> H * round64 0.85" "H * round64 0.85 \<le> H * (218 / 256)"
    by this+
  with assms(2,3) have "of_int a \<le> H * round64 0.85" "H * round64 0.85 \<le> of_int b"
    by linarith+
  from round64_int_between [OF this assms(4,5)]
  show "of_int a \<le> round64 (H * round64 0.85)" "round64 (H * round64 0.85) \<le> of_int b" .
qed

lemma needs_pagination_default:
  assumes "\<not> is_thermal sz"
  shows "needs_pagination (get_default_config sz st) x =
     (round64 (of_int (height_mm sz - 2 * right_m (default_margins sz st)) * round64 0.85) < x)"
proof -
  let ?H = "real_of_int (height_mm sz - 2 * right_m (default_margins sz st))"
  have "0 \<le> ?H" "?H \<le> 1000" using default_height_range [OF assms, of st] by simp_all
  from threshold_value [OF this] show ?thesis
    using assms
    by (simp only: needs_pagination_def default_printable_height default_config_fields
          is_continuous_thermal Let_def fgt_def flt.simps if_False)
qed

text \<open>
  Claim C6. On a configuration whose size is continuous, \<^verbatim>\<open>needs_pagination\<close> is false for
  every content height. On a configuration whose size has a fixed height it is true
  exactly when the content height exceeds the printable height times the page break
  threshold, the product being the binary64 one.
\<close>

theorem needs_pagination_iff:
  "(is_continuous (size_b c) \<longrightarrow> \<not> needs_pagination c content_height_mm) \<and>
   (\<not> is_continuous (size_b c) \<longrightarrow>
      needs_pagination c content_height_mm =
        fgt (Fin content_height_mm)
          (fmul (printable_height_mm c) (Fin (page_break_threshold c))))"
  by (simp add: needs_pagination_def Let_def)

text \<open>
  On Letter the printable height is 249 mm and the threshold is the double nearest to
  \<open>249 * 0.85\<close>, which is the double \<^verbatim>\<open>211.65\<close> itself: a content of that height does
  not need pagination, although the exact product of 249 and the double \<^verbatim>\<open>0.85\<close> is
  below it.
\<close>

lemma threshold_LETTER:
  "round64 (249 * round64 0.85) = 7446772352601293 / 2 ^ 45"
  "round64 211.65 = 7446772352601293 / 2 ^ 45"
  "249 * round64 0.85 < round64 211.65"
proof -
  show a: "round64 (249 * round64 0.85) = 7446772352601293 / 2 ^ 45"
    unfolding round64_085(1)
    using round64_near_div [of 45 "249 * (7656119366529843 / 2 ^ 53)" 7446772352601293]
    by simp
  show b: "round64 211.65 = 7446772352601293 / 2 ^ 45"
    using round64_near_div [of 45 "211.65" 7446772352601293] by simp
  show "249 * round64 0.85 < round64 211.65"
    unfolding b round64_085(1) by simp
qed

lemma threshold_A5: "round64 (190 * round64 0.85) = 161.5"
  unfolding round64_085(1)
  using round64_near_div [of 45 "190 * (7656119366529843 / 2 ^ 53)" 5682276092346368]
  by simp

theorem needs_pagination_iff_witness:
  "\<not> needs_pagination (get_default_config THERMAL_80 COMPACT) 1000 \<and>
   needs_pagination (get_default_config A5 CLASSIC) 162 \<and>
   \<not> needs_pagination (get_default_config A5 CLASSIC) 161 \<and>
   \<not> needs_pagination (get_default_config LETTER CLASSIC) (round64 211.65)"
proof -
  have t: "is_continuous (size_b (get_default_config THERMAL_80 COMPACT))"
    by (simp add: default_config_fields is_continuous_def)
  have p: "\<not> is_continuous (size_b (get_default_config A5 CLASSIC))"
    "\<not> is_continuous (size_b (get_default_config LETTER CLASSIC))"
    by (simp_all add: default_config_fields is_continuous_def)
  have h: "fmul (printable_height_mm (get_default_config A5 CLASSIC))
             (Fin (page_break_threshold (get_default_config A5 CLASSIC))) =
           Fin (round64 (190 * round64 0.85))"
    using threshold_value [of 190]
    by (simp add: default_printable_height default_margins_sides is_thermal_cases
          default_config_fields)
  have b: "round64 (190 * round64 0.85) < 162" "\<not> round64 (190 * round64 0.85) < 161"
    unfolding threshold_A5 by simp_all
  have l: "fmul (printable_height_mm (get_default_config LETTER CLASSIC))
             (Fin (page_break_threshold (get_default_config LETTER CLASSIC))) =
           Fin (round64 (249 * round64 0.85))"
    using threshold_value [of 249]
    by (simp add: default_printable_height default_margins_sides is_thermal_cases
          default_config_fields)
  from needs_pagination_iff [of "get_default_config THERMAL_80 COMPACT" 1000] t
  have 1: "\<not> needs_pagination (get_default_config THERMAL_80 COMPACT) 1000" by simp
  from needs_pagination_iff [of "get_default_config A5 CLASSIC" 162] p(1) b
  have 2: "needs_pagination (get_default_config A5 CLASSIC) 162"
    unfolding h by (simp add: fgt_def)
  from needs_pagination_iff [of "get_default_config A5 CLASSIC" 161] p(1) b
  have 3: "\<not> needs_pagination (get_default_config A5 CLASSIC) 161"
    unfolding h by (simp add: fgt_def)
  from needs_pagination_iff [of "get_default_config LETTER CLASSIC" "round64 211.65"] p(2)
  have 4: "\<not> needs_pagination (get_default_config LETTER CLASSIC) (round64 211.65)"
    unfolding l threshold_LETTER(1,2) by (simp add: fgt_def)
  from 1 2 3 4 show ?thesis by (intro conjI)
qed


section \<open>Thermal lines\<close>

lemma length_py_take:
  "length (py_take n xs) =
     (if 0 \<le> n then min (length xs) (nat n) else nat (int (length xs) + n))"
  by (auto simp add: py_take_def)

lemma length_optimize:
  assumes "0 \<le> n"
  shows "int (length (optimize_for_thermal t n)) = min (int (length t)) n"
  using assms by (auto simp add: optimize_for_thermal_def length_py_take length_ascii)

lemma py_int_six_tenths:
  assumes "0 \<le> a"
  shows "0 \<le> py_int (of_int a * 0.6)" and "py_int (of_int a * 0.6) \<le> a"
proof -
  have nn: "(0::real) \<le> of_int a * 0.6" using assms by simp
  then show "0 \<le> py_int (of_int a * 0.6)" by (simp add: py_int_def)
  have "(of_int a * 0.6 :: real) \<le> of_int a" using assms by simp
  then have "\<lfloor>of_int a * 0.6 :: real\<rfloor> \<le> a" by (simp add: floor_le_iff)
  with nn show "py_int (of_int a * 0.6) \<le> a" by (simp add: py_int_def)
qed

lemma format_thermal_line_fits:
  assumes "0 \<le> width - int (length l) - int (length r)"
  shows "format_thermal_line l r width =
         l @ replicate (nat (max (width - int (length l) - int (length r)) 1)) 32 @ r"
  using assms by (simp add: format_thermal_line_def Let_def)

lemma format_thermal_line_overflow:
  assumes "width - int (length l) - int (length r) < 0"
  shows "format_thermal_line l r width =
         (let left_chars = py_int (of_int (width - 3) * 0.6);
              right_chars = width - 3 - left_chars;
              l' = optimize_for_thermal l left_chars;
              r' = optimize_for_thermal r right_chars
          in l' @ replicate (nat (max (width - int (length l') - int (length r')) 1)) 32 @ r')"
  using assms by (simp add: format_thermal_line_def Let_def)

text \<open>
  Claim C1, as the code has it. \<^verbatim>\<open>format_thermal_line\<close> always puts at least one space
  between the two fields (\<^verbatim>\<open>max(padding, 1)\<close>). So when the two strings together are
  exactly as long as the width, the line is one character longer than the width. In
  every other case the line is exactly as long as the width, provided the width is at
  least 3 or the two strings fit: below 3 the budget \<^verbatim>\<open>width - 3\<close> of the truncation is
  negative, and nothing is stated for strings that overflow such a width.
\<close>

theorem format_thermal_line_length:
  assumes "3 \<le> width \<or> int (length l) + int (length r) \<le> width"
  shows "int (length (format_thermal_line l r width)) =
         (if int (length l) + int (length r) = width then width + 1 else width)"
proof (cases "width - int (length l) - int (length r) < 0")
  case False
  then have "0 \<le> width - int (length l) - int (length r)" by simp
  from format_thermal_line_fits [OF this] show ?thesis
    using False by (auto simp add: max_def)
next
  case True
  with assms have w: "3 \<le> width" by linarith
  define lc where "lc = py_int (of_int (width - 3) * 0.6)"
  define rc where "rc = width - 3 - lc"
  have lc: "0 \<le> lc" "lc \<le> width - 3"
    using py_int_six_tenths [of "width - 3"] w by (simp_all add: lc_def)
  then have rc: "0 \<le> rc" by (simp add: rc_def)
  define l' where "l' = optimize_for_thermal l lc"
  define r' where "r' = optimize_for_thermal r rc"
  have ll: "int (length l') \<le> lc" by (simp add: l'_def length_optimize lc)
  have lr: "int (length r') \<le> rc" by (simp add: r'_def length_optimize rc)
  have eq: "format_thermal_line l r width =
            l' @ replicate (nat (max (width - int (length l') - int (length r')) 1)) 32 @ r'"
    using format_thermal_line_overflow [OF True]
    by (simp add: Let_def l'_def r'_def lc_def rc_def)
  have "3 \<le> width - int (length l') - int (length r')"
    using ll lr by (simp add: rc_def)
  then have "int (length (format_thermal_line l r width)) = width"
    unfolding eq by (simp add: max_def)
  with True show ?thesis by auto
qed

text \<open>
  The witness is the line of the registry's own test, 38 and 7 characters into a width
  of 32 (8377 is the rupee sign).
\<close>

theorem format_thermal_line_length_witness:
  "int (length (format_thermal_line (ascii ''Very Long Item Name That Exceeds Width'')
                  (8377 # ascii ''999.99'') 32)) = 32"
  using format_thermal_line_length
          [of 32 "ascii ''Very Long Item Name That Exceeds Width''" "8377 # ascii ''999.99''"]
  by (simp add: length_ascii)

text \<open>
  The claim as the specification states it fails when the strings fill the width exactly:
  two strings of two characters on a width of 4 give a line of 5 characters.
\<close>

theorem format_thermal_line_length_counterexample:
  "format_thermal_line (ascii ''ab'') (ascii ''cd'') 4 = ascii ''ab cd'' \<and>
   int (length (format_thermal_line (ascii ''ab'') (ascii ''cd'') 4)) \<noteq> 4"
  by (simp add: format_thermal_line_def ascii_def Let_def)

text \<open>
  Below a width of 3 an overflowing line can be longer still: the negative budget makes
  \<^verbatim>\<open>optimize_for_thermal\<close> drop only the last character of each field.
\<close>

lemma format_thermal_line_narrow:
  "format_thermal_line (ascii ''ab'') (ascii ''cd'') 1 = ascii ''a c''"
  by (simp add: format_thermal_line_def optimize_for_thermal_def py_take_def py_int_def
        ascii_def Let_def)


section \<open>Page breaks\<close>

declare page_loop.simps [simp del]

lemma page_loop_done: "step = 0 \<or> length items \<le> i \<Longrightarrow> page_loop i step items = []"
  by (simp add: page_loop.simps)

lemma page_loop_step:
  "0 < step \<Longrightarrow> i < length items \<Longrightarrow>
   page_loop i step items = take step (drop i items) # page_loop (i + step) step items"
  by (subst page_loop.simps) simp

lemma concat_page_loop:
  "0 < step \<Longrightarrow> concat (page_loop i step items) = drop i items"
proof (induction i step items rule: page_loop.induct)
  case (1 i step items)
  show ?case
  proof (cases "i < length items")
    case True
    with 1 have "concat (page_loop (i + step) step items) = drop (i + step) items" by simp
    with True 1(2) show ?thesis
      by (simp add: page_loop_step add.commute [of i step] flip: drop_drop)
  next
    case False
    then show ?thesis by (simp add: page_loop_done)
  qed
qed

lemma length_page_loop:
  "0 < step \<Longrightarrow> length (page_loop i step items) = (length items - i + step - 1) div step"
proof (induction i step items rule: page_loop.induct)
  case (1 i step items)
  show ?case
  proof (cases "i < length items")
    case True
    define a where "a = length items - (i + step) + step - 1"
    from True 1 have ih: "length (page_loop (i + step) step items) = a div step"
      by (simp add: a_def)
    have len: "length (page_loop i step items) = a div step + 1"
      using True 1(2) ih by (simp add: page_loop_step)
    show ?thesis
    proof (cases "i + step \<le> length items")
      case le: True
      have "length items - i + step - 1 = a + step"
        using le 1(2) by (simp add: a_def)
      moreover have "(a + step) div step = a div step + 1"
        using 1(2) by simp
      ultimately have "(length items - i + step - 1) div step = a div step + 1" by (simp only:)
      with len show ?thesis by (simp only:)
    next
      case gt: False
      then have "a < step" using 1(2) by (simp add: a_def)
      then have z: "a div step = 0" by simp
      define x where "x = length items - i - 1"
      have x: "length items - i + step - 1 = x + step" "x < step"
        using True gt by (simp_all add: x_def)
      have "(x + step) div step = x div step + 1" using 1(2) by simp
      also have "x div step = 0" using x(2) by simp
      finally have "(x + step) div step = 1" by simp
      then have "(length items - i + step - 1) div step = 1" by (simp only: x(1))
      with len z show ?thesis by (simp only:)
    qed
  next
    case False
    then show ?thesis using 1(2) by (simp add: page_loop_done)
  qed
qed

lemma butlast_page_loop:
  "0 < step \<Longrightarrow> b \<in> set (butlast (page_loop i step items)) \<Longrightarrow> length b = step"
proof (induction i step items arbitrary: b rule: page_loop.induct)
  case (1 i step items)
  show ?case
  proof (cases "i < length items")
    case True
    note st = page_loop_step [OF 1(2) True]
    show ?thesis
    proof (cases "page_loop (i + step) step items = []")
      case True
      with 1(3) st show ?thesis by simp
    next
      case ne: False
      then have "i + step < length items"
        by (metis page_loop_done not_le_imp_less)
      then have full: "length (take step (drop i items)) = step" by simp
      from 1(3) st ne have "b = take step (drop i items) \<or>
                            b \<in> set (butlast (page_loop (i + step) step items))" by simp
      then show ?thesis
      proof
        assume "b = take step (drop i items)" with full show ?thesis by simp
      next
        assume "b \<in> set (butlast (page_loop (i + step) step items))"
        with 1(1) [of b] True 1(2) show ?thesis by simp
      qed
    qed
  next
    case False
    with 1(3) show ?thesis by (simp add: page_loop_done)
  qed
qed

lemma ceiling_div_nat:
  assumes "0 < k"
  shows "\<lceil>real n / real k\<rceil> = int ((n + k - 1) div k)"
proof -
  define q where "q = (n + k - 1) div k"
  have "q * k \<le> n + k - 1" by (simp add: q_def)
  then have "q * k < n + k" using assms by simp
  then have "real (q * k) < real (n + k)" by (simp only: of_nat_less_iff)
  then have lo: "real q - 1 < real n / real k"
    using assms by (simp add: field_simps)
  have "n + k - 1 < k + q * k"
    unfolding q_def using assms by (rule dividend_less_div_times)
  then have "n \<le> q * k" using assms by simp
  then have "real n \<le> real (q * k)" by (simp only: of_nat_le_iff)
  then have hi: "real n / real k \<le> real q"
    using assms by (simp add: field_simps)
  have "\<lceil>real n / real k\<rceil> = int q"
    by (rule ceiling_unique) (use lo hi in simp_all)
  then show ?thesis by (simp add: q_def)
qed




lemma estimate_plain:
  "estimate_content_height c n False False =
     85 + of_int ((n + 1) * (if is_thermal (size_b c) then 5 else 7))"
  by (simp add: estimate_content_height_def Let_def)

lemma page_breaks_single:
  "\<not> needs_pagination c (estimate_content_height c (int (length items)) False False) \<Longrightarrow>
   calculate_page_breaks c items ipp = Inr [items]"
  by (simp add: calculate_page_breaks_def)

lemma page_breaks_split:
  "needs_pagination c (estimate_content_height c (int (length items)) False False) \<Longrightarrow>
   0 < k \<Longrightarrow>
   calculate_page_breaks c items (Some k) = Inr (page_loop 0 (nat k) items)"
  by (simp add: calculate_page_breaks_def)

lemma page_breaks_derived:
  "needs_pagination c (estimate_content_height c (int (length items)) False False) \<Longrightarrow>
   derived_items_per_page c = Inr n \<Longrightarrow> 0 < n \<Longrightarrow>
   calculate_page_breaks c items None = Inr (page_loop 0 (nat n) items)"
  by (simp add: calculate_page_breaks_def)

text \<open>
  Claim C2, as the code has it. \<^verbatim>\<open>calculate_page_breaks\<close> first asks whether the
  estimated height of the whole list needs pagination. If it does not, the result is the
  whole list as a single batch, whatever \<^verbatim>\<open>items_per_page\<close> is. If it does, then for a
  supplied \<open>k > 0\<close> the result has \<open>ceil(N/k)\<close> batches and every batch but the last has
  exactly \<open>k\<close> items. In both cases the function raises nothing and the batches,
  concatenated in order, are the list of items.
\<close>

theorem calculate_page_breaks_batches:
  assumes "0 < k"
  shows "\<exists>pages. calculate_page_breaks c items (Some k) = Inr pages \<and> concat pages = items \<and>
     (if needs_pagination c (estimate_content_height c (int (length items)) False False)
      then int (length pages) = \<lceil>real (length items) / real_of_int k\<rceil> \<and>
           (\<forall>b \<in> set (butlast pages). int (length b) = k)
      else pages = [items])"
proof (cases "needs_pagination c (estimate_content_height c (int (length items)) False False)")
  case False
  then show ?thesis by (simp add: page_breaks_single)
next
  case True
  from assms have k: "0 < nat k" "real_of_int k = real (nat k)" by simp_all
  let ?pages = "page_loop 0 (nat k) items"
  have 1: "calculate_page_breaks c items (Some k) = Inr ?pages"
    using True assms by (rule page_breaks_split)
  have 2: "concat ?pages = items"
    using concat_page_loop [OF k(1), of 0 items] by simp
  have 3: "int (length ?pages) = \<lceil>real (length items) / real_of_int k\<rceil>"
    unfolding k(2) ceiling_div_nat [OF k(1)] length_page_loop [OF k(1)] by simp
  have 4: "\<forall>b \<in> set (butlast ?pages). int (length b) = k"
    using butlast_page_loop [OF k(1)] assms by fastforce
  from 1 2 3 4 True show ?thesis by simp
qed

lemma A5_needs: "needs_pagination (get_default_config A5 CLASSIC)
     (estimate_content_height (get_default_config A5 CLASSIC) 50 False False)"
proof -
  have t: "\<not> is_thermal A5" by (simp add: is_thermal_cases)
  have "round64 (190 * round64 0.85) < 442" unfolding threshold_A5 by simp
  then show ?thesis
    unfolding needs_pagination_default [OF t]
    by (simp add: estimate_plain default_config_fields default_margins_sides is_thermal_cases)
qed

lemma A4_not_needs: "\<not> needs_pagination (get_default_config A4 CLASSIC)
     (estimate_content_height (get_default_config A4 CLASSIC) 5 False False)"
proof -
  have t: "\<not> is_thermal A4" by (simp add: is_thermal_cases)
  have "231 \<le> round64 (273 * round64 0.85)"
    using threshold_bounds(1) [of 273 231 233] by simp
  then have "\<not> round64 (273 * round64 0.85) < 127" by simp
  then show ?thesis
    unfolding needs_pagination_default [OF t]
    by (simp add: estimate_plain default_config_fields default_margins_sides is_thermal_cases)
qed

text \<open>
  The witness is the registry's own test: 50 items on A5 with 20 items per page.
\<close>

theorem calculate_page_breaks_batches_witness:
  "\<exists>pages. calculate_page_breaks (get_default_config A5 CLASSIC) [0..<50] (Some 20) = Inr pages \<and>
     concat pages = [0..<50] \<and> length pages = 3 \<and>
     (\<forall>b \<in> set (butlast pages). length b = 20)"
proof -
  have k: "(0::int) < 20" by simp
  have n: "needs_pagination (get_default_config A5 CLASSIC)
     (estimate_content_height (get_default_config A5 CLASSIC) (int (length [0..<50])) False False)"
    using A5_needs by simp
  from calculate_page_breaks_batches [OF k, of "get_default_config A5 CLASSIC" "[0..<50]"]
  obtain pages where p:
    "calculate_page_breaks (get_default_config A5 CLASSIC) [0..<50] (Some 20) = Inr pages"
    "concat pages = [0..<50]"
    "int (length pages) = \<lceil>real (length [0..<50]) / real_of_int 20\<rceil>"
    "\<forall>b \<in> set (butlast pages). int (length b) = 20"
    using n by (auto simp only: if_True)
  have "\<lceil>real (length [0..<50]) / real_of_int 20\<rceil> = 3" by simp
  with p(3) have l: "length pages = 3" by simp
  from p(4) have "\<forall>b \<in> set (butlast pages). length b = 20" by simp
  with p(1,2) l show ?thesis by blast
qed

text \<open>
  The claim as the specification states it fails on a short list: five items on A4 with
  two items per page come back as one batch, not three.
\<close>

theorem calculate_page_breaks_batches_counterexample:
  "calculate_page_breaks (get_default_config A4 CLASSIC) [1, 2, 3, 4, 5 :: nat] (Some 2) =
     Inr [[1, 2, 3, 4, 5]] \<and>
   int (length [[1, 2, 3, 4, 5 :: nat]]) \<noteq> \<lceil>5 / 2 :: real\<rceil>"
proof -
  have "\<not> needs_pagination (get_default_config A4 CLASSIC)
     (estimate_content_height (get_default_config A4 CLASSIC)
        (int (length [1, 2, 3, 4, 5 :: nat])) False False)"
    using A4_not_needs by simp
  then have "calculate_page_breaks (get_default_config A4 CLASSIC) [1, 2, 3, 4, 5 :: nat] (Some 2) =
     Inr [[1, 2, 3, 4, 5]]" by (rule page_breaks_single)
  then show ?thesis by simp
qed

lemma page_breaks_falsy:
  "calculate_page_breaks c items (Some 0) = calculate_page_breaks c items None"
  by (simp add: calculate_page_breaks_def)

text \<open>
  The batch size derived on a page whose printable height is \<open>H\<close>, a paper size: the
  product, the quotient and the truncation, none of them out of range.
\<close>

lemma derived_value:
  assumes "\<not> is_thermal (size_b c)" "printable_height_mm c = Fin H" "107 \<le> H * (39321 / 65536)"
    "H \<le> 1000"
  shows "derived_items_per_page c = Inr \<lfloor>round64 (round64 (H * round64 0.6) / 7)\<rfloor>"
    and "15 \<le> \<lfloor>round64 (round64 (H * round64 0.6) / 7)\<rfloor>"
proof -
  let ?a = "round64 (H * round64 0.6)"
  let ?q = "round64 (?a / 7)"
  have H: "0 \<le> H" using assms(3) by simp
  have "H * (39321 / 65536) \<le> H * round64 0.6"
    by (rule mult_left_mono [OF literal_bounds(3) H])
  with assms(3) have "107 \<le> H * round64 0.6" by linarith
  then have lo: "of_int 107 \<le> H * round64 0.6" by simp
  have "round64 0.6 \<le> 1" using literal_bounds(4) by simp
  from mult_left_mono [OF this H] assms(4) have hi: "H * round64 0.6 \<le> of_int 1000" by simp
  from round64_int_between [OF lo hi] have a: "107 \<le> ?a" "?a \<le> 1000" by simp_all
  have "\<bar>H * round64 0.6\<bar> \<le> of_int 1000" using lo hi by simp
  then have "pack (H * round64 0.6) = Fin ?a" by (rule pack_bounded) simp
  then have m: "fmul (Fin H) (Fin (round64 0.6)) = Fin ?a" by simp
  have lo7: "of_int 15 \<le> ?a / 7" and hi7: "?a / 7 \<le> of_int 1000" using a by simp_all
  from round64_int_between [OF lo7 hi7] have q: "15 \<le> ?q" "?q \<le> 1000" by simp_all
  have "\<bar>?a / 7\<bar> \<le> of_int 1000" using lo7 hi7 by simp
  then have "pack (?a / 7) = Fin ?q" by (rule pack_bounded) simp
  then have d: "fdiv (Fin ?a) (Fin 7) = Inr (Fin ?q)" by simp
  have i: "py_int ?q = \<lfloor>?q\<rfloor>" using q(1) by (simp add: py_int_def)
  have r: "(if is_thermal (size_b c) then 5 else 7) = (7::real)" using assms(1) by simp
  show "derived_items_per_page c = Inr \<lfloor>?q\<rfloor>"
    unfolding derived_items_per_page_def Let_def assms(2) r m d
    by (simp only: sum.case float_int.simps i)
  show "15 \<le> \<lfloor>?q\<rfloor>" using q(1) by (simp add: le_floor_iff)
qed

lemma default_derived:
  assumes "\<not> is_thermal sz"
  shows "\<exists>H n. printable_height_mm (get_default_config sz st) = Fin H \<and>
           n = \<lfloor>round64 (round64 (H * round64 0.6) / 7)\<rfloor> \<and>
           derived_items_per_page (get_default_config sz st) = Inr n \<and> 15 \<le> n"
proof -
  let ?c = "get_default_config sz st"
  let ?H = "real_of_int (height_mm sz - 2 * right_m (default_margins sz st))"
  have p: "printable_height_mm ?c = Fin ?H"
    using assms by (simp add: default_printable_height)
  have t: "\<not> is_thermal (size_b ?c)" using assms by (simp add: default_config_fields)
  from default_height_range [OF assms, of st] have "179 \<le> ?H" "?H \<le> 1000" by simp_all
  then have "107 \<le> ?H * (39321 / 65536)" "?H \<le> 1000" by simp_all
  from derived_value [OF t p this] p show ?thesis by blast
qed

text \<open>
  Claim C9. An \<^verbatim>\<open>items_per_page\<close> of 0 is treated as an omitted one: the batch size,
  when one is needed, is the binary64 value of \<open>printable_height_mm * 0.6 / row_height\<close>
  truncated. On a configuration of \<^verbatim>\<open>get_default_config\<close> the function returns the
  single batch when the list does not need pagination (always so on a thermal size);
  when it does, the derived batch size \<open>n\<close> is at least 15, and the result is the list
  cut into \<open>ceil(N/n)\<close> batches, all but the last of \<open>n\<close> items. So the loop never
  raises.
\<close>

theorem derived_page_size:
  "calculate_page_breaks c items (Some 0) = calculate_page_breaks c items None \<and>
   derived_items_per_page c =
     (case fdiv (fmul (printable_height_mm c) (Fin (round64 0.6)))
             (Fin (if is_thermal (size_b c) then 5 else 7)) of
        Inl e \<Rightarrow> Inl e
      | Inr q \<Rightarrow> float_int q) \<and>
   (if needs_pagination (get_default_config sz st)
         (estimate_content_height (get_default_config sz st) (int (length items)) False False)
    then \<exists>H n. printable_height_mm (get_default_config sz st) = Fin H \<and>
           n = \<lfloor>round64 (round64 (H * round64 0.6) / 7)\<rfloor> \<and>
           derived_items_per_page (get_default_config sz st) = Inr n \<and> 15 \<le> n \<and>
           calculate_page_breaks (get_default_config sz st) items None =
             Inr (page_loop 0 (nat n) items) \<and>
           concat (page_loop 0 (nat n) items) = items \<and>
           int (length (page_loop 0 (nat n) items)) = \<lceil>real (length items) / real_of_int n\<rceil> \<and>
           (\<forall>b \<in> set (butlast (page_loop 0 (nat n) items)). int (length b) = n)
    else calculate_page_breaks (get_default_config sz st) items None = Inr [items])"
proof -
  let ?c = "get_default_config sz st"
  have a: "derived_items_per_page c =
     (case fdiv (fmul (printable_height_mm c) (Fin (round64 0.6)))
             (Fin (if is_thermal (size_b c) then 5 else 7)) of
        Inl e \<Rightarrow> Inl e
      | Inr q \<Rightarrow> float_int q)"
    by (simp add: derived_items_per_page_def Let_def)
  have b: "if needs_pagination ?c (estimate_content_height ?c (int (length items)) False False)
    then \<exists>H n. printable_height_mm ?c = Fin H \<and>
           n = \<lfloor>round64 (round64 (H * round64 0.6) / 7)\<rfloor> \<and>
           derived_items_per_page ?c = Inr n \<and> 15 \<le> n \<and>
           calculate_page_breaks ?c items None = Inr (page_loop 0 (nat n) items) \<and>
           concat (page_loop 0 (nat n) items) = items \<and>
           int (length (page_loop 0 (nat n) items)) = \<lceil>real (length items) / real_of_int n\<rceil> \<and>
           (\<forall>b \<in> set (butlast (page_loop 0 (nat n) items)). int (length b) = n)
    else calculate_page_breaks ?c items None = Inr [items]"
  proof (cases "needs_pagination ?c (estimate_content_height ?c (int (length items)) False False)")
    case False
    then show ?thesis by (simp add: page_breaks_single)
  next
    case True
    then have "\<not> is_thermal sz"
      by (auto simp add: needs_pagination_def default_config_fields is_continuous_thermal)
    from default_derived [OF this, of st] obtain H n where d:
      "printable_height_mm ?c = Fin H"
      "n = \<lfloor>round64 (round64 (H * round64 0.6) / 7)\<rfloor>"
      "derived_items_per_page ?c = Inr n" "15 \<le> n"
      by blast
    from d(4) have k: "0 < nat n" "real_of_int n = real (nat n)" "0 < n" by simp_all
    let ?pages = "page_loop 0 (nat n) items"
    have 1: "calculate_page_breaks ?c items None = Inr ?pages"
      using True d(3) k(3) by (rule page_breaks_derived)
    have 2: "concat ?pages = items"
      using concat_page_loop [OF k(1), of 0 items] by simp
    have 3: "int (length ?pages) = \<lceil>real (length items) / real_of_int n\<rceil>"
      unfolding k(2) ceiling_div_nat [OF k(1)] length_page_loop [OF k(1)] by simp
    have 4: "\<forall>b \<in> set (butlast ?pages). int (length b) = n"
      using butlast_page_loop [OF k(1)] k(3) by fastforce
    have "\<exists>H n. printable_height_mm ?c = Fin H \<and>
           n = \<lfloor>round64 (round64 (H * round64 0.6) / 7)\<rfloor> \<and>
           derived_items_per_page ?c = Inr n \<and> 15 \<le> n \<and>
           calculate_page_breaks ?c items None = Inr (page_loop 0 (nat n) items) \<and>
           concat (page_loop 0 (nat n) items) = items \<and>
           int (length (page_loop 0 (nat n) items)) = \<lceil>real (length items) / real_of_int n\<rceil> \<and>
           (\<forall>b \<in> set (butlast (page_loop 0 (nat n) items)). int (length b) = n)"
      apply (rule exI [of _ H], rule exI [of _ n])
      using d 1 2 3 4 by (intro conjI)
    with True show ?thesis by (simp only: if_True)
  qed
  from page_breaks_falsy a b show ?thesis by (intro conjI)
qed

text \<open>
  Fifty items on A5 with an \<^verbatim>\<open>items_per_page\<close> of 0: the printable height is 190 mm,
  \<open>190 * 0.6\<close> is the double 114, and \<open>114 / 7\<close> truncates to 16.
\<close>

lemma derived_A5: "derived_items_per_page (get_default_config A5 CLASSIC) = Inr 16"
proof -
  let ?c = "get_default_config A5 CLASSIC"
  have t: "\<not> is_thermal (size_b ?c)" by (simp add: default_config_fields is_thermal_cases)
  have p: "printable_height_mm ?c = Fin 190"
    by (simp add: default_printable_height default_margins_sides is_thermal_cases)
  have a: "round64 (190 * round64 0.6) = 114"
    unfolding round64_06(1)
    using round64_near_div [of 46 "190 * (5404319552844595 / 2 ^ 53)" 8022036836253696]
    by simp
  have "of_int 16 \<le> (114::real) / 7" "(114::real) / 7 \<le> of_int 33 / 2 ^ 1" by simp_all
  from round64_between [OF _ _ this] round64_int [of 16] round64_dyadic [of 33 1]
  have "16 \<le> round64 (114 / 7)" "round64 (114 / 7) \<le> 33 / 2" by simp_all
  then have f: "\<lfloor>round64 (114 / 7)\<rfloor> = 16" by (intro floor_unique) simp_all
  from derived_value(1) [OF t p] show ?thesis unfolding a f by simp
qed

theorem derived_page_size_witness:
  "calculate_page_breaks (get_default_config A5 CLASSIC) [0..<50] (Some 0) =
     Inr [[0..<16], [16..<32], [32..<48], [48..<50]] \<and>
   calculate_page_breaks (get_default_config A5 CLASSIC) [0..<50] None =
     Inr [[0..<16], [16..<32], [32..<48], [48..<50]] \<and>
   derived_items_per_page (get_default_config A5 CLASSIC) = Inr 16 \<and>
   calculate_page_breaks (get_default_config A4 CLASSIC) [1, 2, 3, 4, 5 :: nat] (Some 0) =
     Inr [[1, 2, 3, 4, 5]]"
proof -
  let ?c = "get_default_config A5 CLASSIC"
  let ?d = "get_default_config A4 CLASSIC"
  have n: "needs_pagination ?c (estimate_content_height ?c (int (length [0..<50])) False False)"
    using A5_needs by simp
  note t = derived_page_size [of ?c "[0..<50]" A5 CLASSIC]
  from t have z: "calculate_page_breaks ?c [0..<50] (Some 0) =
                  calculate_page_breaks ?c [0..<50] None"
    by (rule conjunct1)
  from t [THEN conjunct2, THEN conjunct2, unfolded if_P [OF n]]
  obtain k where k: "derived_items_per_page ?c = Inr k"
    "calculate_page_breaks ?c [0..<50] None = Inr (page_loop 0 (nat k) [0..<50])"
    by blast
  from k(1) derived_A5 have "k = 16" by simp
  have l: "page_loop 0 16 [0..<50] = [[0..<16], [16..<32], [32..<48], [48..<50]]"
    by (simp add: page_loop_step page_loop_done)
  have 2: "calculate_page_breaks ?c [0..<50] None =
             Inr [[0..<16], [16..<32], [32..<48], [48..<50]]"
    using k(2) l unfolding \<open>k = 16\<close> by simp
  have m: "\<not> needs_pagination ?d
     (estimate_content_height ?d (int (length [1, 2, 3, 4, 5 :: nat])) False False)"
    using A4_not_needs by simp
  note u = derived_page_size [of ?d "[1, 2, 3, 4, 5 :: nat]" A4 CLASSIC]
  from u [THEN conjunct1] u [THEN conjunct2, THEN conjunct2, unfolded if_not_P [OF m]]
  have 3: "calculate_page_breaks ?d [1, 2, 3, 4, 5 :: nat] (Some 0) = Inr [[1, 2, 3, 4, 5]]"
    by simp
  from z 2 derived_A5 3 show ?thesis by simp
qed


section \<open>Item layout\<close>


lemma item_layout_unwrapped:
  "\<not> is_thermal (size_b c) \<Longrightarrow> \<not> wrap_item_names c \<Longrightarrow>
   calculate_item_layout c name =
     Inr \<lparr>display_name_i = name, lines = [name], truncated = False\<rparr>"
  by (simp add: calculate_item_layout_def)

lemma item_layout_wrapped:
  assumes "\<not> is_thermal (size_b c)" and "wrap_item_names c"
  shows "calculate_item_layout c name =
     (if int (length (wrapped_lines name)) > max_lines_per_item c then
        (let lines2 = py_take (max_lines_per_item c) (wrapped_lines name) in
         if lines2 = [] then Inl IndexError
         else Inr \<lparr>display_name_i = name,
                   lines = lines2[length lines2 - 1 :=
                             py_take (- 3) (last lines2) @ ascii ''...''],
                   truncated = True\<rparr>)
      else Inr \<lparr>display_name_i = name, lines = wrapped_lines name, truncated = False\<rparr>)"
  using assms by (simp add: calculate_item_layout_def Let_def)

lemma item_layout_paper_limit:
  assumes "\<not> is_thermal (size_b c)" and "1 \<le> max_lines_per_item c"
  shows "\<exists>r. calculate_item_layout c name = Inr r \<and>
             int (length (lines r)) \<le> max_lines_per_item c"
proof (cases "wrap_item_names c")
  case False
  with assms show ?thesis by (simp add: item_layout_unwrapped)
next
  case True
  note eq = item_layout_wrapped [OF assms(1) True, of name]
  show ?thesis
  proof (cases "int (length (wrapped_lines name)) > max_lines_per_item c")
    case False
    with eq show ?thesis by simp
  next
    case over: True
    let ?l2 = "py_take (max_lines_per_item c) (wrapped_lines name)"
    have len: "int (length ?l2) = max_lines_per_item c"
      using over assms(2) by (simp add: py_take_def)
    then have ne: "?l2 \<noteq> []" using assms(2) by auto
    from eq over ne len show ?thesis by (simp add: Let_def)
  qed
qed



text \<open>
  Claim C4, as the code has it. \<^verbatim>\<open>calculate_item_layout\<close> is a loop over the words of the
  name followed by a slice, so it terminates on every name. On a paper configuration whose
  \<^verbatim>\<open>max_lines_per_item\<close> is at least 1 it raises nothing and returns at most
  \<^verbatim>\<open>max_lines_per_item\<close> lines; every paper configuration of \<^verbatim>\<open>get_default_config\<close> is
  one, with a limit of 3.
\<close>

theorem item_layout_line_limit:
  "(\<not> is_thermal (size_b c) \<longrightarrow> 1 \<le> max_lines_per_item c \<longrightarrow>
      (\<exists>r. calculate_item_layout c name = Inr r \<and>
           int (length (lines r)) \<le> max_lines_per_item c)) \<and>
   (\<not> is_thermal sz \<longrightarrow>
      (\<exists>r. calculate_item_layout (get_default_config sz st) name = Inr r \<and>
           length (lines r) \<le> 3))"
proof -
  have "\<exists>r. calculate_item_layout (get_default_config sz st) name = Inr r \<and>
           length (lines r) \<le> 3" if p: "\<not> is_thermal sz"
  proof -
    have "\<not> is_thermal (size_b (get_default_config sz st))"
      and "1 \<le> max_lines_per_item (get_default_config sz st)"
      using p by (simp_all add: default_config_fields)
    from item_layout_paper_limit [OF this, of name] p show ?thesis
      by (simp add: default_config_fields)
  qed
  then show ?thesis using item_layout_paper_limit [of c name] by blast
qed

theorem item_layout_line_limit_witness:
  "(\<exists>r. calculate_item_layout (get_default_config A4 CLASSIC) (replicate 500 65) = Inr r \<and>
        length (lines r) \<le> 3) \<and>
   (\<exists>r. calculate_item_layout ((get_default_config A4 CLASSIC)\<lparr>max_lines_per_item := 1\<rparr>)
          (ascii ''Extra Large Cappuccino with Double Shot Espresso and Whipped Cream'') = Inr r \<and>
        int (length (lines r)) \<le> 1)"
proof -
  have p: "\<not> is_thermal A4" by (simp add: is_thermal_cases)
  let ?c = "(get_default_config A4 CLASSIC)\<lparr>max_lines_per_item := 1\<rparr>"
  have q: "\<not> is_thermal (size_b ?c)" "1 \<le> max_lines_per_item ?c"
    by (simp_all add: default_config_fields is_thermal_cases)
  from item_layout_line_limit [of ?c "replicate 500 65" A4 CLASSIC] p
  have 1: "\<exists>r. calculate_item_layout (get_default_config A4 CLASSIC) (replicate 500 65) = Inr r \<and>
        length (lines r) \<le> 3" by blast
  from item_layout_line_limit
         [of ?c "ascii ''Extra Large Cappuccino with Double Shot Espresso and Whipped Cream''"
             A4 CLASSIC] q
  have 2: "\<exists>r. calculate_item_layout ?c
          (ascii ''Extra Large Cappuccino with Double Shot Espresso and Whipped Cream'') = Inr r \<and>
        int (length (lines r)) \<le> 1" by simp
  from 1 2 show ?thesis by (intro conjI)
qed

text \<open>
  The claim as the specification states it fails on a paper configuration with a limit
  below 1. Without wrapping the name is always one line, whatever the limit is.
\<close>

theorem item_layout_line_limit_counterexample:
  "\<not> is_thermal (size_b ((get_default_config A4 CLASSIC)
        \<lparr>wrap_item_names := False, max_lines_per_item := 0\<rparr>)) \<and>
   calculate_item_layout
     ((get_default_config A4 CLASSIC)\<lparr>wrap_item_names := False, max_lines_per_item := 0\<rparr>)
     (ascii ''Coffee'') =
     Inr \<lparr>display_name_i = ascii ''Coffee'', lines = [ascii ''Coffee''], truncated = False\<rparr> \<and>
   \<not> int (length [ascii ''Coffee'']) \<le>
       max_lines_per_item ((get_default_config A4 CLASSIC)
         \<lparr>wrap_item_names := False, max_lines_per_item := 0\<rparr>)"
  by (simp add: item_layout_unwrapped default_config_fields is_thermal_cases)

text \<open>
  With wrapping and a limit of 0 the slice leaves no line, and \<^verbatim>\<open>lines[-1]\<close> raises.
\<close>

lemma wrapped_lines_Coffee: "wrapped_lines (ascii ''Coffee'') = [ascii ''Coffee'']"
  by (simp add: wrapped_lines_def py_split_def py_isspace_def ascii_def)

lemma item_layout_no_lines:
  "calculate_item_layout ((get_default_config A4 CLASSIC)\<lparr>max_lines_per_item := 0\<rparr>)
     (ascii ''Coffee'') = Inl IndexError"
  by (simp add: item_layout_wrapped default_config_fields is_thermal_cases wrapped_lines_Coffee
        py_take_def)




section \<open>Worked examples\<close>

text \<open>
  The layouts of three names, computed from the definitions:
  a name wrapped into two lines, a name of four long words cut to three lines with an
  ellipsis, and a name truncated on a thermal roll of 30 characters.
\<close>

lemma wrapped_lines_cappuccino:
  "wrapped_lines (ascii ''Extra Large Cappuccino with Double Shot Espresso and Whipped Cream'') =
     [ascii ''Extra Large Cappuccino with Double Shot'', ascii ''Espresso and Whipped Cream'']"
  by (simp add: wrapped_lines_def py_split_def py_isspace_def ascii_def)

lemma item_layout_truncated_example:
  "calculate_item_layout (get_default_config A4 CLASSIC)
     (ascii ''Aaaaaaaaaaaaaaaaaaaaaaaaa Bbbbbbbbbbbbbbbbbbbbbbbbb Ccccccccccccccccccccccccc Ddddddddddddddddddddddddd'') =
   Inr \<lparr>display_name_i =
          ascii ''Aaaaaaaaaaaaaaaaaaaaaaaaa Bbbbbbbbbbbbbbbbbbbbbbbbb Ccccccccccccccccccccccccc Ddddddddddddddddddddddddd'',
        lines = [ascii ''Aaaaaaaaaaaaaaaaaaaaaaaaa'', ascii ''Bbbbbbbbbbbbbbbbbbbbbbbbb'',
                 ascii ''Cccccccccccccccccccccc...''],
        truncated = True\<rparr>"
  by (simp add: item_layout_wrapped default_config_fields is_thermal_cases wrapped_lines_def
        py_split_def py_isspace_def py_take_def ascii_def)

lemma item_layout_thermal_example:
  "calculate_item_layout (get_default_config THERMAL_80 COMPACT)
     (ascii ''Extra Large Cappuccino with Double Shot'') =
   Inr \<lparr>display_name_i = ascii ''Extra Larg...'', lines = [ascii ''Extra Larg...''],
        truncated = True\<rparr>"
  by (simp add: calculate_item_layout_def get_default_config_def is_thermal_cases
        default_margins_sides as_float_def horizontal_total_def py_int_def py_take_def ascii_def
        Let_def)

end
